theory Spec2Isabelle
  imports Complex_Main
begin

section \<open>Data model of \<open>flora_esrgan/upscale.py\<close>\<close>

text \<open>
  The two option enumerations of the source. An option that the caller leaves out is
  Python's \<open>None\<close>, so the fields that hold them are of \<open>option\<close> type.
\<close>

datatype SeamlessOptions = TILE | MIRROR | REPLICATE | ALPHA_PAD

datatype AlphaOptions = NO_ALPHA | BG_DIFFERENCE | ALPHA_SEPARATELY | SWAPPING

text \<open>
  A three-dimensional numpy array of shape \<open>(H, W, C)\<close> is a list of rows, a row is a
  list of pixels, a pixel is the list of its channel samples. A numpy array is always
  rectangular; \<open>is_array\<close> says so for a list of lists, with the positive height and
  width of an image that was decoded from a file.
\<close>

definition shape0 :: "'a list list list \<Rightarrow> nat" where
  "shape0 img = length img"

definition shape1 :: "'a list list list \<Rightarrow> nat" where
  "shape1 img = (case img of [] \<Rightarrow> 0 | r # _ \<Rightarrow> length r)"

definition shape2 :: "'a list list list \<Rightarrow> nat" where
  "shape2 img =
     (case img of [] \<Rightarrow> 0 | r # _ \<Rightarrow> (case r of [] \<Rightarrow> 0 | p # _ \<Rightarrow> length p))"

definition is_array :: "nat \<Rightarrow> nat \<Rightarrow> nat \<Rightarrow> 'a list list list \<Rightarrow> bool" where
  "is_array h w c img \<longleftrightarrow>
     0 < h \<and> 0 < w \<and> length img = h \<and>
     list_all (\<lambda>r. length r = w \<and> list_all (\<lambda>p. length p = c) r) img"

section \<open>Seamless borders\<close>

subsection \<open>\<open>cv2.copyMakeBorder\<close>\<close>

text \<open>
  OpenCV is a library the source calls. \<open>copyMakeBorder\<close> writes at destination index
  \<open>i\<close> of an axis the source element at \<open>borderInterpolate (i - before)\<close>, and the
  constant value where that index is \<open>-1\<close>. The four border types the source uses
  are modelled after OpenCV's documented extrapolation: \<open>BORDER_REPLICATE\<close> is
  \<open>aaaaaa|abcdefgh|hhhhhhh\<close>, \<open>BORDER_WRAP\<close> is \<open>cdefgh|abcdefgh|abcdefg\<close>,
  \<open>BORDER_REFLECT_101\<close> is \<open>gfedcb|abcdefgh|gfedcba\<close>.
\<close>

datatype BorderTypes = BORDER_CONSTANT | BORDER_REPLICATE | BORDER_WRAP | BORDER_REFLECT_101

definition borderInterpolate :: "int \<Rightarrow> int \<Rightarrow> BorderTypes \<Rightarrow> int" where
  "borderInterpolate p len borderType =
     (if 0 \<le> p \<and> p < len then p
      else case borderType of
        BORDER_REPLICATE \<Rightarrow> (if p < 0 then 0 else len - 1)
      | BORDER_REFLECT_101 \<Rightarrow>
          (if len = 1 then 0
           else let q = p mod (2 * len - 2) in if q < len then q else 2 * len - 2 - q)
      | BORDER_WRAP \<Rightarrow> p mod len
      | BORDER_CONSTANT \<Rightarrow> - 1)"

definition pad_axis :: "BorderTypes \<Rightarrow> nat \<Rightarrow> nat \<Rightarrow> 'a \<Rightarrow> 'a list \<Rightarrow> 'a list" where
  "pad_axis borderType before after fill xs =
     map (\<lambda>i. let j = borderInterpolate (int i - int before) (int (length xs)) borderType
               in if j < 0 then fill else xs ! nat j)
         [0 ..< before + length xs + after]"

definition copyMakeBorder ::
  "'a list list list \<Rightarrow> nat \<Rightarrow> nat \<Rightarrow> nat \<Rightarrow> nat \<Rightarrow> BorderTypes \<Rightarrow> 'a \<Rightarrow> 'a list list list" where
  "copyMakeBorder src ptop pbottom pleft pright borderType v =
     (let fill_pixel = replicate (shape2 src) v;
          fill_row = replicate (pleft + shape1 src + pright) fill_pixel
      in pad_axis borderType ptop pbottom fill_row
           (map (pad_axis borderType pleft pright fill_pixel) src))"

subsection \<open>The padding step of \<open>Upscale.run\<close> and \<open>Upscale.crop_seamless\<close>\<close>

text \<open>
  Lines 119 to 131 of \<open>run\<close>: the chain of comparisons of \<open>self.seamless\<close> with the
  four modes; with no mode configured the image is left as it is. The constant border
  value of \<open>ALPHA_PAD\<close> is \<open>[0, 0, 0, 0]\<close>, zero in every channel.
\<close>

definition seamless_pad :: "SeamlessOptions option \<Rightarrow> 'a::zero list list list \<Rightarrow> 'a list list list" where
  "seamless_pad seamless img =
     (if seamless = Some TILE then copyMakeBorder img 16 16 16 16 BORDER_WRAP 0
      else if seamless = Some MIRROR then copyMakeBorder img 16 16 16 16 BORDER_REFLECT_101 0
      else if seamless = Some REPLICATE then copyMakeBorder img 16 16 16 16 BORDER_REPLICATE 0
      else if seamless = Some ALPHA_PAD then copyMakeBorder img 16 16 16 16 BORDER_CONSTANT 0
      else img)"

text \<open>
  A Python slice \<open>xs[start:stop]\<close> with integer bounds: a negative bound counts from
  the end, and every bound is clamped into \<open>0 .. len(xs)\<close>.
\<close>

definition py_slice :: "int \<Rightarrow> int \<Rightarrow> 'a list \<Rightarrow> 'a list" where
  "py_slice start stop xs =
     (let n = int (length xs);
          a = (if start < 0 then max (start + n) 0 else min start n);
          b = (if stop < 0 then max (stop + n) 0 else min stop n)
      in take (nat (b - a)) (drop (nat a) xs))"

definition crop_seamless :: "'a list list list \<Rightarrow> int \<Rightarrow> 'a list list list" where
  "crop_seamless img scale =
     (let img_height = int (shape0 img);
          img_width = int (shape1 img);
          y = 16 * scale;
          x = 16 * scale;
          h = img_height - 32 * scale;
          w = img_width - 32 * scale
      in map (py_slice x (x + w)) (py_slice y (y + h) img))"

section \<open>The upscaling object\<close>

subsection \<open>Arrays, errors and effects\<close>

text \<open>
  Samples are real numbers: the floating-point arithmetic of numpy and torch is
  idealised (no rounding error, no NaN), and so are the precision switches \<open>float()\<close>
  and \<open>half()\<close>. The array that \<open>upscale\<close> receives carries its numpy \<open>dtype\<close>,
  and has two dimensions (grayscale) or three.
\<close>

type_synonym image = "real list list list"

type_synonym tensor = "real list list list"

datatype dtype = UInt8 | UInt16 | Int32 | Float32

datatype ndarray = Arr2 dtype "real list list" | Arr3 dtype "real list list list"

text \<open>
  The exceptions a call can end with: Python's \<open>ValueError\<close>, \<open>IndexError\<close> and
  \<open>KeyError\<close>, OpenCV's \<open>cv2.error\<close>, a failed checkpoint load, and the two kinds of failure of the
  network (running out of memory, anything else).
\<close>

datatype error =
  ValueError | IndexError | KeyError | CvError | LoadError | ResourceExhausted | OtherError

text \<open>
  What a call does besides returning: a warning written to \<open>self.log\<close>, and a forward
  pass of the network on a tensor. A computation returns its value or the exception it
  raised, with the effects up to that point, in their order.
\<close>

datatype event = LogWarning string | Infer tensor

type_synonym 'a result = "(error + 'a) \<times> event list"

definition succeed :: "'a \<Rightarrow> 'a result" where
  "succeed x = (Inr x, [])"

definition from_sum :: "error + 'a \<Rightarrow> 'a result" where
  "from_sum x = (x, [])"

definition and_then :: "'a result \<Rightarrow> ('a \<Rightarrow> 'b result) \<Rightarrow> 'b result" where
  "and_then m f =
     (case m of
        (Inl e, ev) \<Rightarrow> (Inl e, ev)
      | (Inr a, ev) \<Rightarrow> (case f a of (r, ev') \<Rightarrow> (r, ev @ ev')))"

text \<open>
  \<open>np.iinfo(dtype).max\<close>: the largest value of an integer type; numpy raises
  \<open>ValueError\<close> for a type that is not an integer type.
\<close>

definition iinfo_max :: "dtype \<Rightarrow> error + real" where
  "iinfo_max dt =
     (case dt of
        UInt8 \<Rightarrow> Inr 255
      | UInt16 \<Rightarrow> Inr 65535
      | Int32 \<Rightarrow> Inr 2147483647
      | Float32 \<Rightarrow> Inl ValueError)"

definition dtype_of :: "ndarray \<Rightarrow> dtype" where
  "dtype_of a = (case a of Arr2 dt _ \<Rightarrow> dt | Arr3 dt _ \<Rightarrow> dt)"

text \<open>
  The fields of class \<open>Upscale\<close> that the modelled methods read. \<open>model\<close> is the
  loaded network, called on a tensor of shape \<open>(C, H, W)\<close> (the batch axis that
  \<open>unsqueeze(0)\<close> adds and \<open>squeeze(0)\<close> removes is left out); it returns a tensor
  or fails. The logger's output is the \<open>LogWarning\<close> events, the device is not modelled.
\<close>

record Upscale =
  model_str :: string
  input :: ndarray
  seamless :: "SeamlessOptions option"
  cpu :: bool
  fp16 :: bool
  cache_max_split_depth :: bool
  binary_alpha :: bool
  ternary_alpha :: bool
  alpha_threshold :: real
  alpha_boundary_offset :: real
  alpha_mode :: "AlphaOptions option"
  last_model :: "string option"
  last_in_nc :: nat
  last_out_nc :: nat
  last_scale :: int
  model :: "tensor \<Rightarrow> error + tensor"

subsection \<open>\<open>Upscale.__init__\<close> and \<open>Upscale.load_model\<close>\<close>

text \<open>
  What \<open>load_model\<close> gets from a checkpoint: the network with its channel counts and
  its scale. \<open>torch.load\<close>, the interpolation of two checkpoints and the constructors of
  the three architectures are not in the source files at hand; together they are the
  parameter \<open>load\<close>, which fails or returns a network.
\<close>

record network =
  net_in_nc :: nat
  net_out_nc :: nat
  net_scale :: int
  net_forward :: "tensor \<Rightarrow> error + tensor"

text \<open>
  The constructor stores its arguments and calls \<open>load_model\<close>. The class attribute
  \<open>last_model\<close> is \<open>None\<close> then, so \<open>model_path != self.last_model\<close> holds and the
  checkpoint is loaded. No argument is validated. The arguments \<open>device_id\<close> and
  \<open>log\<close> select the device and the logger, which are not modelled, and are left out.
\<close>

definition Upscale_init ::
  "(string \<Rightarrow> error + network) \<Rightarrow> string \<Rightarrow> ndarray \<Rightarrow> SeamlessOptions option \<Rightarrow> bool \<Rightarrow> bool \<Rightarrow>
   bool \<Rightarrow> bool \<Rightarrow> bool \<Rightarrow> real \<Rightarrow> real \<Rightarrow> AlphaOptions option \<Rightarrow> error + Upscale" where
  "Upscale_init load a_model a_input a_seamless a_cpu a_fp16 a_cache_max_split_depth
     a_binary_alpha a_ternary_alpha a_alpha_threshold a_alpha_boundary_offset a_alpha_mode =
     (case load a_model of
        Inl e \<Rightarrow> Inl e
      | Inr n \<Rightarrow>
          Inr \<lparr> model_str = a_model, input = a_input, seamless = a_seamless, cpu = a_cpu,
                fp16 = a_fp16, cache_max_split_depth = a_cache_max_split_depth,
                binary_alpha = a_binary_alpha, ternary_alpha = a_ternary_alpha,
                alpha_threshold = a_alpha_threshold,
                alpha_boundary_offset = a_alpha_boundary_offset,
                alpha_mode = a_alpha_mode, last_model = Some a_model,
                last_in_nc = net_in_nc n, last_out_nc = net_out_nc n,
                last_scale = net_scale n, model = net_forward n \<rparr>)"

subsection \<open>\<open>Upscale.process\<close>\<close>

text \<open>
  \<open>np.transpose(img, (2, 0, 1))\<close> turns an array of shape \<open>(H, W, C)\<close> into one of
  shape \<open>(C, H, W)\<close>, and \<open>np.transpose(output, (1, 2, 0))\<close> turns it back.
\<close>

definition transpose_201 :: "'a list list list \<Rightarrow> 'a list list list" where
  "transpose_201 img = map (\<lambda>c. map (map (\<lambda>p. p ! c)) img) [0 ..< shape2 img]"

definition transpose_120 :: "'a list list list \<Rightarrow> 'a list list list" where
  "transpose_120 t =
     map (\<lambda>y. map (\<lambda>x. map (\<lambda>ch. ch ! y ! x) t) [0 ..< shape2 t]) [0 ..< shape1 t]"

definition clamp01 :: "real \<Rightarrow> real" where
  "clamp01 v = min 1 (max 0 v)"

text \<open>
  The first half of \<open>process\<close>: the channels of a 3- or 4-channel image are reordered
  (\<open>[2, 1, 0]\<close>, \<open>[2, 1, 0, 3]\<close>) and the image is transposed into a tensor.
\<close>

definition to_tensor :: "image \<Rightarrow> tensor" where
  "to_tensor img =
     (let img = (if shape2 img = 3 then map (map (\<lambda>p. [p ! 2, p ! 1, p ! 0])) img
                 else if shape2 img = 4 then map (map (\<lambda>p. [p ! 2, p ! 1, p ! 0, p ! 3])) img
                 else img)
      in transpose_201 img)"

text \<open>
  The second half: the network's output is clamped into \<open>[0, 1]\<close>, the channels of a
  3- or 4-channel output are put back in their order, and the tensor is transposed into
  an image.
\<close>

definition from_tensor :: "tensor \<Rightarrow> image" where
  "from_tensor out =
     (let output = map (map (map clamp01)) out;
          output = (if shape0 output = 3 then [output ! 2, output ! 1, output ! 0]
                    else if shape0 output = 4
                      then [output ! 2, output ! 1, output ! 0, output ! 3]
                    else output)
      in transpose_120 output)"

definition process :: "Upscale \<Rightarrow> image \<Rightarrow> image result" where
  "process self img =
     (let img_LR = to_tensor img
      in case model self img_LR of
           Inl e \<Rightarrow> (Inl e, [Infer img_LR])
         | Inr out \<Rightarrow> (Inr (from_tensor out), [Infer img_LR]))"

subsection \<open>\<open>Upscale.upscale\<close>\<close>

text \<open>
  The operations of numpy and OpenCV that \<open>upscale\<close> uses, on rectangular arrays.
  \<open>np_sub\<close> is the elementwise difference of two arrays of one shape; numpy raises
  \<open>ValueError\<close> for shapes it cannot broadcast, and broadcasting of unequal shapes
  (an axis of length 1) is not modelled: the two operands are outputs of the network
  on inputs of one shape.
\<close>

definition np_sub :: "image \<Rightarrow> image \<Rightarrow> error + image" where
  "np_sub a b =
     (if shape0 a = shape0 b \<and> shape1 a = shape1 b \<and> shape2 a = shape2 b
      then Inr (map2 (map2 (map2 (\<lambda>x y. x - y))) a b)
      else Inl ValueError)"

definition np_mean_axis2 :: "image \<Rightarrow> real list list" where
  "np_mean_axis2 a = map (map (\<lambda>p. sum_list p / real (length p))) a"

definition np_dstack :: "image \<Rightarrow> real list list \<Rightarrow> image" where
  "np_dstack a plane = map2 (map2 (\<lambda>p v. p @ [v])) a plane"

definition np_clip01 :: "image \<Rightarrow> image" where
  "np_clip01 a = map (map (map (\<lambda>v. min 1 (max v 0)))) a"

text \<open>
  \<open>cv2.merge\<close> of four planes taken from two images, as the modes \<open>separate\<close> and
  \<open>swapping\<close> call it: indexing a channel that an image does not have raises
  \<open>IndexError\<close>, planes of different sizes are an OpenCV error.
\<close>

definition merge_3_1 :: "image \<Rightarrow> image \<Rightarrow> nat \<Rightarrow> error + image" where
  "merge_3_1 output1 output2 k =
     (if shape2 output1 < 3 \<or> shape2 output2 \<le> k then Inl IndexError
      else if shape0 output1 \<noteq> shape0 output2 \<or> shape1 output1 \<noteq> shape1 output2 then Inl CvError
      else Inr (map2 (map2 (\<lambda>p q. [p ! 0, p ! 1, p ! 2, q ! k])) output1 output2))"

text \<open>
  \<open>cv2.cvtColor(output, cv2.COLOR_BGR2BGRA)\<close> on a floating-point image: a fourth
  channel of value 1.0 is added to a 3-channel image, a 4-channel image keeps its own,
  any other channel count is an OpenCV error.
\<close>

definition cvtColor_BGR2BGRA :: "image \<Rightarrow> error + image" where
  "cvtColor_BGR2BGRA a =
     (if shape2 a = 3 then Inr (map (map (\<lambda>p. p @ [1])) a)
      else if shape2 a = 4 then Inr a
      else Inl CvError)"

text \<open>
  Lines 275 to 279: the two copies of the colour channels and the loop over
  \<open>range(3)\<close> that composites them against black and against white.
\<close>

definition bg_composite :: "image \<Rightarrow> image \<times> image" where
  "bg_composite img =
     foldl (\<lambda>(img1, img2) c.
              (map2 (map2 (\<lambda>p q. p[c := p ! c * q ! 3])) img1 img,
               map2 (map2 (\<lambda>p q. p[c := (p ! c - 1) * q ! 3 + 1])) img2 img))
           (map (map (take 3)) img, map (map (take 3)) img)
           [0, 1, 2]"

text \<open>
  Lines 273 to 318: the four alpha modes, on the normalised 4-channel image. Every
  mode but the last runs \<open>process\<close> twice, the second time only when the first returned.
\<close>

definition upscale_alpha :: "Upscale \<Rightarrow> image \<Rightarrow> image result" where
  "upscale_alpha self img =
     (if alpha_mode self = Some BG_DIFFERENCE then
        (let (img1, img2) = bg_composite img
         in and_then (process self img1) (\<lambda>output1.
            and_then (process self img2) (\<lambda>output2.
              from_sum
                (case np_sub output2 output1 of
                   Inl e \<Rightarrow> Inl e
                 | Inr d \<Rightarrow>
                     (let alpha = map (map (\<lambda>m. 1 - m)) (np_mean_axis2 d);
                          output = np_dstack output1 alpha
                      in Inr (np_clip01 output))))))
      else if alpha_mode self = Some ALPHA_SEPARATELY then
        (let img1 = map (map (take 3)) img;
             img2 = map (map (\<lambda>p. [p ! 3, p ! 3, p ! 3])) img
         in and_then (process self img1) (\<lambda>output1.
            and_then (process self img2) (\<lambda>output2.
              from_sum (merge_3_1 output1 output2 0))))
      else if alpha_mode self = Some SWAPPING then
        (let img1 = map (map (\<lambda>p. [p ! 0, p ! 1, p ! 2])) img;
             img2 = map (map (\<lambda>p. [p ! 1, p ! 2, p ! 3])) img
         in and_then (process self img1) (\<lambda>output1.
            and_then (process self img2) (\<lambda>output2.
              from_sum (merge_3_1 output1 output2 2))))
      else
        (let img1 = map (map (take 3)) img
         in and_then (process self img1) (\<lambda>output. from_sum (cvtColor_BGR2BGRA output))))"

text \<open>
  Lines 320 to 338: the quantisation of the alpha channel. \<open>cv2.threshold\<close> with
  \<open>THRESH_BINARY\<close> and maximum 1 writes 1 where the sample is greater than the
  threshold and 0 elsewhere. Reading channel 3 of an array with fewer channels raises
  \<open>IndexError\<close>.
\<close>

definition threshold_binary :: "real \<Rightarrow> real \<Rightarrow> real \<Rightarrow> real" where
  "threshold_binary thresh maxval v = (if v > thresh then maxval else 0)"

definition ternary_where :: "real \<Rightarrow> real \<Rightarrow> real \<Rightarrow> real" where
  "ternary_where half_transparent_lower_bound half_transparent_upper_bound a =
     (if a < half_transparent_lower_bound then 0
      else if a \<le> half_transparent_upper_bound then 0.5 else 1)"

definition upscale_quantize :: "Upscale \<Rightarrow> image \<Rightarrow> error + image" where
  "upscale_quantize self output =
     (if binary_alpha self then
        (if shape2 output < 4 then Inl IndexError
         else Inr (map (map (\<lambda>p. p[3 := threshold_binary (alpha_threshold self) 1 (p ! 3)]))
                     output))
      else if ternary_alpha self then
        (if shape2 output < 4 then Inl IndexError
         else Inr (map (map (\<lambda>p. p[3 := ternary_where
                       (alpha_threshold self - alpha_boundary_offset self)
                       (alpha_threshold self + alpha_boundary_offset self) (p ! 3)]))
                     output))
      else Inr output)"

text \<open>
  The value that lines 320 to 338 write for an alpha sample \<open>a\<close>: the binary
  threshold when \<open>binary_alpha\<close> is set, else the ternary classification when
  \<open>ternary_alpha\<close> is set, else the sample itself.
\<close>

definition quantized_alpha :: "Upscale \<Rightarrow> real \<Rightarrow> real" where
  "quantized_alpha self a =
     (if binary_alpha self then threshold_binary (alpha_threshold self) 1 a
      else if ternary_alpha self then
        ternary_where (alpha_threshold self - alpha_boundary_offset self)
          (alpha_threshold self + alpha_boundary_offset self) a
      else a)"

text \<open>
  Lines 340 to 350: the channels of an image that does not take the alpha path are
  fitted to the network. The grayscale image was tiled to \<open>min(last_in_nc, 3)\<close>
  channels before (see \<open>upscale\<close>).
\<close>

definition upscale_adapt :: "Upscale \<Rightarrow> image \<Rightarrow> image result" where
  "upscale_adapt self img =
     (if shape2 img > last_in_nc self then
        (case process self (map (map (take (last_in_nc self))) img) of
           (r, ev) \<Rightarrow> (r, LogWarning ''Truncating image channels'' # ev))
      else if shape2 img = 3 \<and> last_in_nc self = 4 then
        process self (map (map (\<lambda>p. p @ [1])) img)
      else process self img)"

text \<open>
  \<open>numpy.round\<close> rounds to the nearest integer and a half to the even neighbour.
\<close>

definition np_round :: "real \<Rightarrow> real" where
  "np_round x =
     (let f = \<lfloor>x\<rfloor>; d = x - of_int f
      in if d < 1 / 2 then of_int f
         else if d > 1 / 2 then of_int (f + 1)
         else if even f then of_int f else of_int (f + 1))"

definition rescale_255 :: "image \<Rightarrow> image" where
  "rescale_255 output = map (map (map (\<lambda>v. np_round (v * 255)))) output"

definition upscale :: "Upscale \<Rightarrow> ndarray \<Rightarrow> image result" where
  "upscale self arr =
     (case iinfo_max (dtype_of arr) of
        Inl e \<Rightarrow> (Inl e, [])
      | Inr m \<Rightarrow>
          and_then
            (case arr of
               Arr3 _ px \<Rightarrow>
                 (let img = map (map (map (\<lambda>v. v * 1 / m))) px
                  in if shape2 img = 4 \<and> last_in_nc self = 3 \<and> last_out_nc self = 3
                     then and_then (upscale_alpha self img)
                            (\<lambda>output. from_sum (upscale_quantize self output))
                     else upscale_adapt self img)
             | Arr2 _ px \<Rightarrow>
                 (let img = map (map (\<lambda>v. v * 1 / m)) px;
                      img = map (map (\<lambda>v. replicate (min (last_in_nc self) 3) v)) img
                  in upscale_adapt self img))
            (\<lambda>output. succeed (rescale_255 output)))"

subsection \<open>\<open>Upscale.run\<close>\<close>

text \<open>
  \<open>ops.auto_split_upscale\<close> is not in the source files at hand. \<open>run\<close> takes it as a
  parameter: a function of the image, of the upscaling function, of the scale and of
  the optional \<open>max_depth\<close> (\<open>None\<close> when the call leaves it out), that returns the
  upscaled image with the depth it used, or fails.
\<close>

type_synonym splitter =
  "ndarray \<Rightarrow> (ndarray \<Rightarrow> image result) \<Rightarrow> int \<Rightarrow> int option \<Rightarrow> (image \<times> int) result"

text \<open>
  \<open>astype(np.uint8)\<close> of a floating-point sample: the fraction is cut off and the
  integer is reduced modulo 256.
\<close>

definition astype_uint8 :: "real \<Rightarrow> real" where
  "astype_uint8 v = of_int ((if 0 \<le> v then \<lfloor>v\<rfloor> else \<lceil>v\<rceil>) mod 256)"

text \<open>
  \<open>run\<close>, line by line. The dictionary \<open>split_depths\<close> is a local variable, created
  empty by every call; it is an association list here, and \<open>split_depths[0]\<close>
  raises \<open>KeyError\<close> for a missing key. The assignment \<open>img = rlt.astype(uint8)\<close>
  is never read again and is left out. The method assigns no field of the object, so
  a later call of \<open>run\<close> is a call on the same object.
\<close>

definition cvtColor_GRAY2BGR :: "'a list list \<Rightarrow> 'a list list list" where
  "cvtColor_GRAY2BGR g = map (map (\<lambda>v. [v, v, v])) g"

definition run :: "Upscale \<Rightarrow> splitter \<Rightarrow> ndarray result" where
  "run self auto_split_upscale =
     (let split_depths = ([] :: (nat \<times> int) list);
          (dt, img) = (case input self of
                         Arr2 dt g \<Rightarrow> (dt, cvtColor_GRAY2BGR g)
                       | Arr3 dt a \<Rightarrow> (dt, a));
          img = seamless_pad (seamless self) img;
          final_scale = (1 :: int);
          use_cache = (cache_max_split_depth self \<and> length (map fst split_depths) > 0);
          call = (if use_cache
                  then (case map_of split_depths 0 of
                          None \<Rightarrow> (Inl KeyError, [])
                        | Some d \<Rightarrow>
                            auto_split_upscale (Arr3 dt img) (upscale self) (last_scale self)
                              (Some d))
                  else auto_split_upscale (Arr3 dt img) (upscale self) (last_scale self) None)
      in and_then call (\<lambda>(rlt, depth).
           (let split_depths = (if use_cache then split_depths else (0, depth) # split_depths);
                final_scale = final_scale * last_scale self;
                rlt = (if seamless self \<noteq> None then crop_seamless rlt final_scale else rlt);
                rlt = map (map (map astype_uint8)) rlt
            in succeed (Arr3 UInt8 rlt))))"

section \<open>The contract of the network\<close>

text \<open>
  The network is a collaborator of the code. What the theorems below assume of it is
  its interface: on a tensor of \<open>last_in_nc\<close> channels and positive height and width
  it returns (it does not fail) a tensor of \<open>last_out_nc\<close> channels whose height and
  width are those of the input times the positive scale.
\<close>

definition has_shape :: "nat \<Rightarrow> nat \<Rightarrow> nat \<Rightarrow> 'a list list list \<Rightarrow> bool" where
  "has_shape d0 d1 d2 a \<longleftrightarrow>
     length a = d0 \<and> list_all (\<lambda>r. length r = d1 \<and> list_all (\<lambda>p. length p = d2) r) a"

definition model_contract :: "Upscale \<Rightarrow> bool" where
  "model_contract self \<longleftrightarrow>
     0 < last_scale self \<and>
     (\<forall>t h w. 0 < h \<and> 0 < w \<and> has_shape (last_in_nc self) h w t \<longrightarrow>
        (\<exists>r. model self t = Inr r \<and>
           has_shape (last_out_nc self) (nat (last_scale self) * h) (nat (last_scale self) * w) r))"

definition in01 :: "image \<Rightarrow> bool" where
  "in01 a \<longleftrightarrow> list_all (list_all (list_all (\<lambda>v. 0 \<le> v \<and> v \<le> 1))) a"

section \<open>The specification's formulas\<close>

text \<open>
  Definitions that follow the words of the specification, to be compared with what the
  code computes. The two composites of an RGBA pixel \<open>[r, g, b, a]\<close>: against
  black \<open>rgb * alpha\<close>, against white \<open>(rgb - 1) * alpha + 1\<close>. The ternary
  classification of an alpha sample: 0 below \<open>threshold - offset\<close>, 1 above
  \<open>threshold + offset\<close>, 0.5 otherwise. The binary classification as the
  specification has it: 0 below the threshold, 1 at or above it.
\<close>

definition black_pixel :: "real list \<Rightarrow> real list" where
  "black_pixel p = [p ! 0 * p ! 3, p ! 1 * p ! 3, p ! 2 * p ! 3]"

definition white_pixel :: "real list \<Rightarrow> real list" where
  "white_pixel p = [(p ! 0 - 1) * p ! 3 + 1, (p ! 1 - 1) * p ! 3 + 1, (p ! 2 - 1) * p ! 3 + 1]"

definition spec_ternary :: "real \<Rightarrow> real \<Rightarrow> real \<Rightarrow> real" where
  "spec_ternary threshold offset a =
     (if a < threshold - offset then 0 else if a > threshold + offset then 1 else 1 / 2)"

definition spec_binary :: "real \<Rightarrow> real \<Rightarrow> real" where
  "spec_binary threshold a = (if a < threshold then 0 else 1)"

section \<open>A concrete network and object\<close>

text \<open>
  The smallest network that meets the contract: three channels in, three channels out,
  scale 1, the output equal to the input. \<open>example_obj\<close> is the object that the
  constructor builds from it with the default arguments of the source (no seamless
  mode, no alpha mode, no quantisation, threshold 0.5, boundary offset 0.2) on a
  one-pixel RGBA image of type \<open>uint8\<close>.
\<close>

definition identity_net :: "tensor \<Rightarrow> error + tensor" where
  "identity_net t = Inr t"

definition example_network :: network where
  "example_network =
     \<lparr> net_in_nc = 3, net_out_nc = 3, net_scale = 1, net_forward = identity_net \<rparr>"

definition example_obj :: Upscale where
  "example_obj =
     \<lparr> model_str = ''4x.pth'', input = Arr3 UInt8 [[[255, 0, 51, 255]]], seamless = None,
       cpu = False, fp16 = False, cache_max_split_depth = False, binary_alpha = False,
       ternary_alpha = False, alpha_threshold = 1 / 2, alpha_boundary_offset = 1 / 5,
       alpha_mode = None, last_model = Some ''4x.pth'', last_in_nc = 3, last_out_nc = 3,
       last_scale = 1, model = identity_net \<rparr>"

section \<open>Padding and cropping\<close>

lemma length_pad_axis [simp]:
  "length (pad_axis bt before after fill xs) = before + length xs + after"
  by (simp add: pad_axis_def)

lemma borderInterpolate_inside:
  "0 \<le> p \<Longrightarrow> p < len \<Longrightarrow> borderInterpolate p len bt = p"
  by (simp add: borderInterpolate_def)

lemma borderInterpolate_less:
  assumes "0 < len"
  shows "borderInterpolate p len bt < len"
proof (cases "0 \<le> p \<and> p < len")
  case True
  then show ?thesis by (simp add: borderInterpolate_def)
next
  case False
  show ?thesis
  proof (cases bt)
    case BORDER_CONSTANT
    then show ?thesis using False assms by (simp add: borderInterpolate_def)
  next
    case BORDER_REPLICATE
    then show ?thesis using False assms by (simp add: borderInterpolate_def)
  next
    case BORDER_WRAP
    then show ?thesis using False assms by (simp add: borderInterpolate_def)
  next
    case BORDER_REFLECT_101
    show ?thesis
    proof (cases "len = 1")
      case True
      then show ?thesis using False BORDER_REFLECT_101 by (simp add: borderInterpolate_def)
    next
      case one: False
      then have period: "0 < 2 * len - 2"
        using assms by simp
      define q where "q = p mod (2 * len - 2)"
      have "0 \<le> q" "q < 2 * len - 2"
        using period by (simp_all add: q_def)
      then have "(if q < len then q else 2 * len - 2 - q) < len"
        by simp
      then show ?thesis
        using False BORDER_REFLECT_101 one
        by (simp add: borderInterpolate_def Let_def q_def)
    qed
  qed
qed

lemma pad_axis_inside:
  assumes "i < length xs"
  shows "pad_axis bt before after fill xs ! (before + i) = xs ! i"
proof -
  have "before + i < before + length xs + after"
    using assms by simp
  then have "pad_axis bt before after fill xs ! (before + i) =
      (let j = borderInterpolate (int (before + i) - int before) (int (length xs)) bt
       in if j < 0 then fill else xs ! nat j)"
    unfolding pad_axis_def by (simp del: upt_Suc)
  also have "borderInterpolate (int (before + i) - int before) (int (length xs)) bt = int i"
    using assms by (simp add: borderInterpolate_inside)
  finally show ?thesis by simp
qed

lemma py_slice_pad_axis:
  "py_slice (int before) (int before + int (length xs)) (pad_axis bt before after fill xs) = xs"
proof (rule nth_equalityI)
  show len: "length (py_slice (int before) (int before + int (length xs))
      (pad_axis bt before after fill xs)) = length xs"
    by (simp add: py_slice_def Let_def min_def)
  fix i
  assume "i < length (py_slice (int before) (int before + int (length xs))
      (pad_axis bt before after fill xs))"
  then have i: "i < length xs"
    using len by simp
  then show "py_slice (int before) (int before + int (length xs))
      (pad_axis bt before after fill xs) ! i = xs ! i"
    by (simp add: py_slice_def Let_def min_def pad_axis_inside)
qed

lemma shape1_map_pad_axis:
  assumes "is_array h w c img"
  shows "shape1 (pad_axis bt pt pb fill_row (map (pad_axis bt pl pr fill) img))
      = pl + w + pr \<or>
    shape1 (pad_axis bt pt pb fill_row (map (pad_axis bt pl pr fill) img))
      = length fill_row"
proof -
  let ?rows = "map (pad_axis bt pl pr fill) img"
  let ?P = "pad_axis bt pt pb fill_row ?rows"
  have pos: "0 < length ?P"
    using assms by (simp add: is_array_def)
  have rows: "list_all (\<lambda>r. length r = pl + w + pr) ?rows"
    using assms by (simp add: is_array_def list_all_iff)
  define j where "j = borderInterpolate (int 0 - int pt) (int (length ?rows)) bt"
  have hd_eq: "?P ! 0 = (if j < 0 then fill_row else ?rows ! nat j)"
  proof -
    have "0 < pt + length ?rows + pb"
      using pos by simp
    then have "[0 ..< pt + length ?rows + pb] ! 0 = 0"
      by (metis add.left_neutral nth_upt)
    then show ?thesis
      using pos unfolding pad_axis_def j_def by (simp add: Let_def del: upt_Suc)
  qed
  have width: "shape1 ?P = length (?P ! 0)"
    using pos by (cases ?P) (simp_all add: shape1_def)
  have inrange: "0 \<le> j \<Longrightarrow> nat j < length ?rows"
  proof -
    assume nonneg: "0 \<le> j"
    have hpos: "0 < int (length ?rows)"
      using assms by (simp add: is_array_def)
    have "j < int (length ?rows)"
      unfolding j_def by (rule borderInterpolate_less [OF hpos])
    then show "nat j < length ?rows"
      using nonneg by simp
  qed
  show ?thesis
  proof (cases "j < 0")
    case True
    then show ?thesis using width hd_eq by simp
  next
    case False
    then have "nat j < length ?rows" using inrange by simp
    then have "length (?rows ! nat j) = pl + w + pr"
      using rows by (simp add: list_all_length)
    then show ?thesis using width hd_eq False by simp
  qed
qed

lemma shape1_array:
  "is_array h w c img \<Longrightarrow> shape1 img = w"
  by (cases img) (simp_all add: is_array_def shape1_def)

lemma crop_copyMakeBorder:
  assumes arr: "is_array h w c img"
  shows "crop_seamless (copyMakeBorder img 16 16 16 16 bt v) 1 = img"
proof -
  define fill_pixel where "fill_pixel = replicate (shape2 img) v"
  define fill_row where "fill_row = replicate (16 + shape1 img + 16) fill_pixel"
  define rows where "rows = map (pad_axis bt 16 16 fill_pixel) img"
  define P where "P = pad_axis bt 16 16 fill_row rows"
  have P: "copyMakeBorder img 16 16 16 16 bt v = P"
    by (simp add: copyMakeBorder_def Let_def P_def rows_def fill_row_def fill_pixel_def)
  have len_rows: "length rows = h"
    using arr by (simp add: rows_def is_array_def)
  have height: "int (shape0 P) = 32 + int h"
    by (simp add: shape0_def P_def len_rows)
  have "length fill_row = 16 + w + 16"
    using shape1_array [OF arr] by (simp add: fill_row_def)
  then have width: "int (shape1 P) = 32 + int w"
    using shape1_map_pad_axis [OF arr, of bt 16 16 fill_row 16 16 fill_pixel]
    by (auto simp: P_def rows_def)
  have outer: "py_slice 16 (16 + int h) P = rows"
    using py_slice_pad_axis [of 16 rows bt 16 fill_row] by (simp add: P_def len_rows)
  have inner: "map (py_slice 16 (16 + int w)) rows = img"
  proof -
    have "py_slice 16 (16 + int w) (pad_axis bt 16 16 fill_pixel r) = r" if "r \<in> set img" for r
    proof -
      have "length r = w"
        using arr that by (simp add: is_array_def list_all_iff)
      then show ?thesis
        using py_slice_pad_axis [of 16 r bt 16 fill_pixel] by simp
    qed
    then show ?thesis
      by (simp add: rows_def map_idI)
  qed
  show ?thesis
    unfolding P crop_seamless_def Let_def height width
    using outer inner by simp
qed

text \<open>
  C6. For every image (a rectangular array of positive height and width, with any
  number of channels and any sample type) and every one of the four seamless modes
  \<open>tile\<close>, \<open>mirror\<close>, \<open>replicate\<close> and \<open>alpha_pad\<close>, cropping the 16-pixel
  margin at scale 1 from the padded image gives back exactly the image:
  \<open>crop_seamless (pad image) 1 = image\<close>.
\<close>

theorem crop_seamless_pad_inverse:
  assumes "is_array h w c img"
  shows "crop_seamless (seamless_pad (Some mode) img) 1 = img"
  using assms by (cases mode) (simp_all add: seamless_pad_def crop_copyMakeBorder)

theorem crop_seamless_pad_inverse_witness:
  "is_array 1 2 3 [[[10, 20, 30], [40, 50, 60 :: nat]]] \<and>
   crop_seamless (seamless_pad (Some MIRROR) [[[10, 20, 30], [40, 50, 60 :: nat]]]) 1
     = [[[10, 20, 30], [40, 50, 60]]]"
proof -
  have arr: "is_array 1 2 3 [[[10, 20, 30], [40, 50, 60 :: nat]]]"
    by (simp add: is_array_def)
  show ?thesis
    using arr crop_seamless_pad_inverse [OF arr, of MIRROR] by simp
qed

section \<open>Shapes of arrays and tensors\<close>

lemma is_array_shape:
  assumes "is_array h w c img"
  shows "shape0 img = h" "shape1 img = w" "shape2 img = c"
proof -
  obtain r rs where img: "img = r # rs"
    using assms by (cases img) (auto simp: is_array_def)
  then obtain p ps where r: "r = p # ps"
    using assms by (cases r) (auto simp: is_array_def)
  show "shape0 img = h" using assms by (simp add: is_array_def shape0_def)
  show "shape1 img = w" using assms img by (simp add: is_array_def shape1_def)
  show "shape2 img = c" using assms img r by (simp add: is_array_def shape2_def)
qed

lemma is_array_map_pixels:
  assumes "is_array h w c img" and "\<And>p. length p = c \<Longrightarrow> length (f p) = c'"
  shows "is_array h w c' (map (map f) img)"
  using assms by (auto simp: is_array_def list_all_iff)

lemma has_shape_transpose_201:
  assumes "is_array h w c img"
  shows "has_shape c h w (transpose_201 img)"
  using assms is_array_shape(3) [OF assms]
  by (auto simp: transpose_201_def has_shape_def is_array_def list_all_iff)

lemma has_shape_to_tensor:
  assumes "is_array h w c img"
  shows "has_shape c h w (to_tensor img)"
proof -
  have c: "shape2 img = c"
    by (rule is_array_shape(3) [OF assms])
  show ?thesis
  proof (cases "c = 3 \<or> c = 4")
    case False
    then show ?thesis
      using c has_shape_transpose_201 [OF assms] by (auto simp: to_tensor_def)
  next
    case True
    then show ?thesis
    proof
      assume c3: "c = 3"
      have "is_array h w 3 (map (map (\<lambda>p. [p ! 2, p ! 1, p ! 0])) img)"
        using assms by (rule is_array_map_pixels) simp
      then show ?thesis
        using c c3 by (simp add: to_tensor_def has_shape_transpose_201)
    next
      assume c4: "c = 4"
      have "is_array h w 4 (map (map (\<lambda>p. [p ! 2, p ! 1, p ! 0, p ! 3])) img)"
        using assms by (rule is_array_map_pixels) simp
      then show ?thesis
        using c c4 by (simp add: to_tensor_def has_shape_transpose_201)
    qed
  qed
qed

lemma has_shape_dims:
  assumes "has_shape c h w t" and "0 < c" and "0 < h"
  shows "shape0 t = c" "shape1 t = h" "shape2 t = w"
proof -
  obtain r rs where t: "t = r # rs"
    using assms by (cases t) (auto simp: has_shape_def)
  then obtain p ps where r: "r = p # ps"
    using assms by (cases r) (auto simp: has_shape_def)
  show "shape0 t = c" using assms by (simp add: has_shape_def shape0_def)
  show "shape1 t = h" using assms t by (simp add: has_shape_def shape1_def)
  show "shape2 t = w" using assms t r by (simp add: has_shape_def shape2_def)
qed

lemma is_array_transpose_120:
  assumes "has_shape c h w t" and "0 < c" and "0 < h" and "0 < w"
  shows "is_array h w c (transpose_120 t)"
  using assms has_shape_dims [OF assms(1,2,3)]
  by (auto simp: transpose_120_def is_array_def has_shape_def list_all_iff)

lemma in01_transpose_120:
  assumes "has_shape c h w t" and "0 < c" and "0 < h"
    and "list_all (list_all (list_all (\<lambda>v. 0 \<le> v \<and> v \<le> (1::real)))) t"
  shows "in01 (transpose_120 t)"
proof -
  have dims: "shape1 t = h" "shape2 t = w"
    using has_shape_dims [OF assms(1,2,3)] by simp_all
  have "0 \<le> ch ! y ! x \<and> ch ! y ! x \<le> 1" if "ch \<in> set t" "y < h" "x < w" for ch y x
  proof -
    have "length ch = h" "list_all (\<lambda>p. length p = w) ch"
      using assms(1) that(1) by (auto simp: has_shape_def list_all_iff)
    then have "ch ! y \<in> set ch" "length (ch ! y) = w"
      using that(2) by (auto simp: list_all_length)
    moreover have "list_all (list_all (\<lambda>v. 0 \<le> v \<and> v \<le> 1)) ch"
      using assms(4) that(1) by (auto simp: list_all_iff)
    ultimately have "list_all (\<lambda>v. 0 \<le> v \<and> v \<le> 1) (ch ! y)"
      by (auto simp: list_all_iff)
    then show ?thesis
      using \<open>length (ch ! y) = w\<close> that(3) by (auto simp: list_all_length)
  qed
  then show ?thesis
    by (auto simp: in01_def transpose_120_def dims list_all_iff)
qed

lemma clamp01_range: "0 \<le> clamp01 v \<and> clamp01 v \<le> 1"
  by (simp add: clamp01_def)

lemma has_shape_select:
  assumes "has_shape c h w t" and "set t' \<subseteq> set t"
  shows "has_shape (length t') h w t'"
  using assms by (auto simp: has_shape_def list_all_iff)

lemma from_tensor_ok:
  assumes shp: "has_shape c h w out" and pos: "0 < c" "0 < h" "0 < w"
  shows "is_array h w c (from_tensor out) \<and> in01 (from_tensor out)"
proof -
  define cl where "cl = map (map (map clamp01)) out"
  define sw where "sw = (if shape0 cl = 3 then [cl ! 2, cl ! 1, cl ! 0]
                    else if shape0 cl = 4 then [cl ! 2, cl ! 1, cl ! 0, cl ! 3] else cl)"
  have ft: "from_tensor out = transpose_120 sw"
    by (simp add: from_tensor_def Let_def cl_def sw_def)
  have cl_shape: "has_shape c h w cl"
    using shp by (auto simp: cl_def has_shape_def list_all_iff)
  have cl_range: "list_all (list_all (list_all (\<lambda>v. 0 \<le> v \<and> v \<le> 1))) cl"
    by (simp add: cl_def list_all_iff clamp01_range)
  have len: "length cl = c"
    using cl_shape by (simp add: has_shape_def)
  have sub: "set sw \<subseteq> set cl" and len_sw: "length sw = c"
    using len by (auto simp: sw_def shape0_def)
  have sw_shape: "has_shape c h w sw"
    using has_shape_select [OF cl_shape sub] len_sw by simp
  have sw_range: "list_all (list_all (list_all (\<lambda>v. 0 \<le> v \<and> v \<le> 1))) sw"
    using cl_range sub by (auto simp: list_all_iff)
  show ?thesis
    unfolding ft
    using is_array_transpose_120 [OF sw_shape pos] in01_transpose_120 [OF sw_shape pos(1,2) sw_range]
    by simp
qed

lemma process_ok:
  assumes con: "model_contract self"
    and arr: "is_array h w (last_in_nc self) img"
    and out: "0 < last_out_nc self"
  shows "\<exists>r. model self (to_tensor img) = Inr r \<and>
           process self img = (Inr (from_tensor r), [Infer (to_tensor img)]) \<and>
           is_array (nat (last_scale self) * h) (nat (last_scale self) * w) (last_out_nc self)
             (from_tensor r) \<and>
           in01 (from_tensor r)"
proof -
  have hw: "0 < h" "0 < w"
    using arr by (simp_all add: is_array_def)
  have "has_shape (last_in_nc self) h w (to_tensor img)"
    by (rule has_shape_to_tensor [OF arr])
  then obtain r where r: "model self (to_tensor img) = Inr r"
    and shp: "has_shape (last_out_nc self) (nat (last_scale self) * h) (nat (last_scale self) * w) r"
    using con hw unfolding model_contract_def by blast
  have s: "0 < nat (last_scale self)"
    using con by (simp add: model_contract_def)
  have "is_array (nat (last_scale self) * h) (nat (last_scale self) * w) (last_out_nc self)
      (from_tensor r) \<and> in01 (from_tensor r)"
    using from_tensor_ok [OF shp out] s hw by simp
  moreover have "process self img = (Inr (from_tensor r), [Infer (to_tensor img)])"
    by (simp add: process_def Let_def r)
  ultimately show ?thesis
    using r by blast
qed

section \<open>The two quantisation flags\<close>

lemma process_flags:
  "process (self\<lparr>binary_alpha := b, ternary_alpha := t\<rparr>) img = process self img"
  by (simp add: process_def)

lemma upscale_alpha_flags:
  "upscale_alpha (self\<lparr>binary_alpha := b, ternary_alpha := t\<rparr>) img = upscale_alpha self img"
  by (simp add: upscale_alpha_def process_flags)

lemma upscale_adapt_flags:
  "upscale_adapt (self\<lparr>binary_alpha := b, ternary_alpha := t\<rparr>) img = upscale_adapt self img"
  by (simp add: upscale_adapt_def process_flags)

lemma upscale_quantize_binary:
  "upscale_quantize (self\<lparr>binary_alpha := True, ternary_alpha := t\<rparr>) output =
     (if shape2 output < 4 then Inl IndexError
      else Inr (map (map (\<lambda>p. p[3 := threshold_binary (alpha_threshold self) 1 (p ! 3)]))
             output))"
  by (simp add: upscale_quantize_def)

lemma upscale_both_flags:
  "upscale (self\<lparr>binary_alpha := True, ternary_alpha := True\<rparr>) arr
     = upscale (self\<lparr>binary_alpha := True, ternary_alpha := False\<rparr>) arr"
  by (simp add: upscale_def Let_def upscale_alpha_flags upscale_adapt_flags
      upscale_quantize_binary cong: sum.case_cong ndarray.case_cong if_cong)

section \<open>The split-depth cache\<close>

text \<open>
  C1. \<open>run\<close> never passes a recorded depth to the splitter. Whatever the object
  (also with \<open>cache_max_split_depth\<close> set) and whatever the splitter returned
  before, every call of \<open>run\<close> calls the splitter once, on the padded image, with no
  \<open>max_depth\<close>: the dictionary is created empty by the call itself, so the test
  \<open>len(split_depths.keys()) > 0\<close> fails.
\<close>

theorem run_never_reuses_split_depth:
  "run self auto_split_upscale =
     and_then
       (auto_split_upscale
          (case input self of
             Arr2 dt g \<Rightarrow> Arr3 dt (seamless_pad (seamless self) (cvtColor_GRAY2BGR g))
           | Arr3 dt a \<Rightarrow> Arr3 dt (seamless_pad (seamless self) a))
          (upscale self) (last_scale self) None)
       (\<lambda>(rlt, depth). succeed (Arr3 UInt8 (map (map (map astype_uint8))
          (if seamless self \<noteq> None then crop_seamless rlt (last_scale self) else rlt))))"
  by (cases "input self") (simp_all add: run_def Let_def split_def cong: if_cong)

section \<open>No validation of the quantisation flags\<close>

lemma snd_process: "snd (process self img) = [Infer (to_tensor img)]"
  by (simp add: process_def Let_def split: sum.splits)

lemma and_then_events: "set (snd m) \<subseteq> set (snd (and_then m f))"
  by (auto simp: and_then_def split: prod.splits sum.splits)

lemma and_then_process_infers:
  "Infer (to_tensor img) \<in> set (snd (and_then (process self img) f))"
  using and_then_events [of "process self img" f] by (simp add: snd_process)

lemma upscale_alpha_infers: "\<exists>t. Infer t \<in> set (snd (upscale_alpha self img))"
proof -
  obtain img1 img2 where bg: "bg_composite img = (img1, img2)"
    by (cases "bg_composite img")
  show ?thesis
    unfolding upscale_alpha_def Let_def bg
    using and_then_process_infers by (auto simp: split_def)
qed

lemma upscale_adapt_infers: "\<exists>t. Infer t \<in> set (snd (upscale_adapt self img))"
  unfolding upscale_adapt_def
  by (auto simp: snd_process split: prod.splits) (metis list.set_intros(1) snd_conv snd_process)+

lemma upscale_infers:
  assumes "iinfo_max (dtype_of arr) = Inr m"
  shows "\<exists>t. Infer t \<in> set (snd (upscale self arr))"
proof -
  define body where "body =
    (case arr of
       Arr3 _ px \<Rightarrow>
         (let img = map (map (map (\<lambda>v. v * 1 / m))) px
          in if shape2 img = 4 \<and> last_in_nc self = 3 \<and> last_out_nc self = 3
             then and_then (upscale_alpha self img)
                    (\<lambda>output. from_sum (upscale_quantize self output))
             else upscale_adapt self img)
     | Arr2 _ px \<Rightarrow>
         (let img = map (map (\<lambda>v. v * 1 / m)) px;
              img = map (map (\<lambda>v. replicate (min (last_in_nc self) 3) v)) img
          in upscale_adapt self img))"
  have up: "upscale self arr = and_then body (\<lambda>output. succeed (rescale_255 output))"
    by (simp add: upscale_def assms body_def)
  have "\<exists>t. Infer t \<in> set (snd body)"
  proof (cases arr)
    case (Arr2 dt px)
    then show ?thesis
      using upscale_adapt_infers by (simp add: body_def Let_def)
  next
    case (Arr3 dt px)
    show ?thesis
    proof (cases "shape2 (map (map (map (\<lambda>v. v * 1 / m))) px) = 4 \<and> last_in_nc self = 3 \<and> last_out_nc self = 3")
      case True
      then have "body = and_then (upscale_alpha self (map (map (map (\<lambda>v. v * 1 / m))) px))
          (\<lambda>output. from_sum (upscale_quantize self output))"
        using Arr3 by (simp add: body_def Let_def)
      then show ?thesis
        using upscale_alpha_infers and_then_events by (metis subsetD)
    next
      case False
      then have "body = upscale_adapt self (map (map (map (\<lambda>v. v * 1 / m))) px)"
        using Arr3 by (auto simp: body_def Let_def)
      then show ?thesis
        using upscale_adapt_infers by simp
    qed
  qed
  then show ?thesis
    unfolding up using and_then_events by (metis subsetD)
qed

text \<open>
  C2, as the code has it. With both \<open>binary_alpha\<close> and \<open>ternary_alpha\<close> requested
  no configuration error is raised: the constructor fails only when loading the
  checkpoint fails and otherwise returns the object with both flags set, and
  \<open>upscale\<close> on such an object runs the network at least once on every array of an
  integer type.
\<close>

theorem no_configuration_check:
  "(case load a_model of
      Inl e \<Rightarrow> Upscale_init load a_model a_input a_seamless a_cpu a_fp16 a_cache True True
                 a_threshold a_offset a_alpha_mode = Inl e
    | Inr n \<Rightarrow> (\<exists>obj. Upscale_init load a_model a_input a_seamless a_cpu a_fp16 a_cache True True
                 a_threshold a_offset a_alpha_mode = Inr obj \<and>
                 binary_alpha obj \<and> ternary_alpha obj)) \<and>
   (binary_alpha self \<and> ternary_alpha self \<and> iinfo_max (dtype_of arr) = Inr m \<longrightarrow>
      (\<exists>t. Infer t \<in> set (snd (upscale self arr))))"
  using upscale_infers by (auto simp: Upscale_init_def split: sum.splits)

theorem no_configuration_check_witness:
  "binary_alpha (example_obj\<lparr>binary_alpha := True, ternary_alpha := True\<rparr>) \<and>
   ternary_alpha (example_obj\<lparr>binary_alpha := True, ternary_alpha := True\<rparr>) \<and>
   iinfo_max (dtype_of (Arr3 UInt8 [[[255, 0, 51, 255]]])) = Inr 255 \<and>
   (\<exists>t. Infer t \<in> set (snd (upscale (example_obj\<lparr>binary_alpha := True, ternary_alpha := True\<rparr>)
      (Arr3 UInt8 [[[255, 0, 51, 255]]]))))"
proof -
  have h: "binary_alpha (example_obj\<lparr>binary_alpha := True, ternary_alpha := True\<rparr>) \<and>
      ternary_alpha (example_obj\<lparr>binary_alpha := True, ternary_alpha := True\<rparr>) \<and>
      iinfo_max (dtype_of (Arr3 UInt8 [[[255, 0, 51, 255]]])) = Inr 255"
    by (simp add: dtype_of_def iinfo_max_def)
  from no_configuration_check [THEN conjunct2, THEN mp, OF h] show ?thesis
    using h by simp
qed

text \<open>
  The claim C2 as the specification states it (a configuration error before any
  inference) fails: the constructor accepts both flags, and \<open>upscale\<close> on the
  resulting object runs the network and returns an image.
\<close>

theorem both_flags_counterexample:
  "Upscale_init (\<lambda>path. Inr example_network) ''4x.pth'' (Arr3 UInt8 [[[255, 0, 51, 255]]]) None
      False False False True True (1 / 2) (1 / 5) None
     = Inr (example_obj\<lparr>binary_alpha := True, ternary_alpha := True\<rparr>) \<and>
   upscale (example_obj\<lparr>binary_alpha := True, ternary_alpha := True\<rparr>)
      (Arr3 UInt8 [[[255, 0, 51, 255]]])
     = (Inr [[[255, 0, 51, 255]]], [Infer [[[1 / 5]], [[0]], [[1]]]])"
  by (simp add: Upscale_init_def example_network_def example_obj_def) code_simp

section \<open>The alpha strategies\<close>

lemma map2_map_same: "map2 f (map g xs) xs = map (\<lambda>x. f (g x) x) xs"
  by (induction xs) simp_all

lemma map2_map2_same:
  "map2 (map2 f) (map (map g) img) img = map (map (\<lambda>p. f (g p) p)) img"
  by (simp add: map2_map_same)

lemma pixel4:
  assumes "length p = 4"
  obtains a b c d where "p = [a, b, c, d]"
proof -
  from assms obtain a p1 where "p = a # p1" "length p1 = 3"
    by (cases p) auto
  moreover then obtain b p2 where "p1 = b # p2" "length p2 = 2"
    by (cases p1) auto
  moreover then obtain c p3 where "p2 = c # p3" "length p3 = 1"
    by (cases p2) auto
  moreover then obtain d where "p3 = [d]"
    by (cases p3) auto
  ultimately show ?thesis using that by simp
qed

lemma pixel3:
  assumes "length p = 3"
  obtains a b c where "p = [a, b, c]"
proof -
  from assms obtain a p1 where "p = a # p1" "length p1 = 2"
    by (cases p) auto
  moreover then obtain b p2 where "p1 = b # p2" "length p2 = 1"
    by (cases p1) auto
  moreover then obtain c where "p2 = [c]"
    by (cases p2) auto
  ultimately show ?thesis using that by simp
qed

lemma map_pixels_cong:
  assumes "is_array h w c img" and "\<And>p. length p = c \<Longrightarrow> f p = g p"
  shows "map (map f) img = map (map g) img"
  using assms by (auto simp: is_array_def list_all_iff)

lemma bg_fold:
  "foldl (\<lambda>(img1, img2) c.
            (map2 (map2 (\<lambda>p q. F c p q)) img1 img, map2 (map2 (\<lambda>p q. G c p q)) img2 img))
         (map (map g1) img, map (map g2) img) cs
     = (map (map (\<lambda>p. foldl (\<lambda>p1 c. F c p1 p) (g1 p) cs)) img,
        map (map (\<lambda>p. foldl (\<lambda>p2 c. G c p2 p) (g2 p) cs)) img)"
proof (induction cs arbitrary: g1 g2)
  case Nil
  then show ?case by simp
next
  case (Cons c cs)
  show ?case
    using Cons.IH [of "\<lambda>p. F c (g1 p) p" "\<lambda>p. G c (g2 p) p"]
    by (simp add: map2_map2_same)
qed


lemma black_pixel_fold:
  assumes "length p = 4"
  shows "foldl (\<lambda>p1 c. p1[c := p1 ! c * p ! 3]) (take 3 p) [0, 1, 2] = black_pixel p"
proof -
  obtain a b c d where "p = [a, b, c, d]"
    using assms by (rule pixel4)
  then show ?thesis
    by (simp add: black_pixel_def)
qed

lemma white_pixel_fold:
  assumes "length p = 4"
  shows "foldl (\<lambda>p2 c. p2[c := (p2 ! c - 1) * p ! 3 + 1]) (take 3 p) [0, 1, 2] = white_pixel p"
proof -
  obtain a b c d where "p = [a, b, c, d]"
    using assms by (rule pixel4)
  then show ?thesis
    by (simp add: white_pixel_def)
qed

lemma bg_composite_closed:
  assumes "is_array h w 4 img"
  shows "bg_composite img = (map (map black_pixel) img, map (map white_pixel) img)"
proof -
  have "bg_composite img =
      (map (map (\<lambda>p. foldl (\<lambda>p1 c. p1[c := p1 ! c * p ! 3]) (take 3 p) [0, 1, 2])) img,
       map (map (\<lambda>p. foldl (\<lambda>p2 c. p2[c := (p2 ! c - 1) * p ! 3 + 1]) (take 3 p) [0, 1, 2])) img)"
    unfolding bg_composite_def
    by (rule bg_fold [of "\<lambda>c p q. p[c := p ! c * q ! 3]" img
          "\<lambda>c p q. p[c := (p ! c - 1) * q ! 3 + 1]" "take 3" "take 3" "[0, 1, 2]"])
  moreover have "map (map (\<lambda>p. foldl (\<lambda>p1 c. p1[c := p1 ! c * p ! 3]) (take 3 p) [0, 1, 2])) img
      = map (map black_pixel) img"
    by (rule map_pixels_cong [OF assms]) (rule black_pixel_fold)
  moreover have "map (map (\<lambda>p. foldl (\<lambda>p2 c. p2[c := (p2 ! c - 1) * p ! 3 + 1]) (take 3 p)
      [0, 1, 2])) img = map (map white_pixel) img"
    by (rule map_pixels_cong [OF assms]) (rule white_pixel_fold)
  ultimately show ?thesis
    by (simp only:)
qed

lemma is_array_nth:
  "is_array h w c a \<longleftrightarrow>
     0 < h \<and> 0 < w \<and> length a = h \<and>
     (\<forall>y<h. length (a ! y) = w \<and> (\<forall>x<w. length (a ! y ! x) = c))"
  by (auto simp: is_array_def list_all_length)

lemma is_array_map2:
  assumes "is_array h w c a" and "is_array h w c' b"
    and "\<And>p q. length p = c \<Longrightarrow> length q = c' \<Longrightarrow> length (f p q) = c''"
  shows "is_array h w c'' (map2 (map2 f) a b)"
  using assms unfolding is_array_nth by simp

lemma is_array_take3:
  assumes "is_array h w 4 img"
  shows "is_array h w 3 (map (map (take 3)) img)"
  using assms by (rule is_array_map_pixels) simp

lemma is_array_normalize:
  assumes "is_array h w c px"
  shows "is_array h w c (map (map (map f)) px)"
  using assms by (rule is_array_map_pixels) simp

lemma upscale_alpha_none:
  assumes con: "model_contract self" and nc: "last_in_nc self = 3" "last_out_nc self = 3"
    and arr: "is_array h w 4 img"
    and mode: "alpha_mode self = None \<or> alpha_mode self = Some NO_ALPHA"
  shows "\<exists>o1. process self (map (map (take 3)) img)
             = (Inr o1, [Infer (to_tensor (map (map (take 3)) img))]) \<and>
           is_array (nat (last_scale self) * h) (nat (last_scale self) * w) 3 o1 \<and> in01 o1 \<and>
           upscale_alpha self img
             = (Inr (map (map (\<lambda>p. p @ [1])) o1), [Infer (to_tensor (map (map (take 3)) img))])"
proof -
  have "is_array h w (last_in_nc self) (map (map (take 3)) img)"
    using is_array_take3 [OF arr] nc by simp
  from process_ok [OF con this] nc obtain r where
    p: "process self (map (map (take 3)) img)
          = (Inr (from_tensor r), [Infer (to_tensor (map (map (take 3)) img))])"
    and a: "is_array (nat (last_scale self) * h) (nat (last_scale self) * w) 3 (from_tensor r)"
    and r: "in01 (from_tensor r)"
    by auto
  have "cvtColor_BGR2BGRA (from_tensor r) = Inr (map (map (\<lambda>p. p @ [1])) (from_tensor r))"
    using is_array_shape(3) [OF a] by (simp add: cvtColor_BGR2BGRA_def)
  then have "upscale_alpha self img
      = (Inr (map (map (\<lambda>p. p @ [1])) (from_tensor r)),
         [Infer (to_tensor (map (map (take 3)) img))])"
    using mode p by (auto simp: upscale_alpha_def Let_def and_then_def from_sum_def)
  then show ?thesis
    using p a r by blast
qed

lemma is_array_black:
  assumes "is_array h w 4 img"
  shows "is_array h w 3 (map (map black_pixel) img)"
  using assms by (rule is_array_map_pixels) (simp add: black_pixel_def)

lemma is_array_white:
  assumes "is_array h w 4 img"
  shows "is_array h w 3 (map (map white_pixel) img)"
  using assms by (rule is_array_map_pixels) (simp add: white_pixel_def)

lemma np_sub_arrays:
  assumes "is_array h w c a" and "is_array h w c b"
  shows "np_sub a b = Inr (map2 (map2 (map2 (\<lambda>x y. x - y))) a b)"
  using is_array_shape [OF assms(1)] is_array_shape [OF assms(2)] by (simp add: np_sub_def)

lemma upscale_alpha_bg:
  assumes con: "model_contract self" and nc: "last_in_nc self = 3" "last_out_nc self = 3"
    and arr: "is_array h w 4 img"
    and mode: "alpha_mode self = Some BG_DIFFERENCE"
  shows "\<exists>o1 o2.
           process self (map (map black_pixel) img)
             = (Inr o1, [Infer (to_tensor (map (map black_pixel) img))]) \<and>
           process self (map (map white_pixel) img)
             = (Inr o2, [Infer (to_tensor (map (map white_pixel) img))]) \<and>
           is_array (nat (last_scale self) * h) (nat (last_scale self) * w) 3 o1 \<and>
           is_array (nat (last_scale self) * h) (nat (last_scale self) * w) 3 o2 \<and>
           in01 o1 \<and> in01 o2 \<and>
           upscale_alpha self img
             = (Inr (np_clip01 (np_dstack o1 (map (map (\<lambda>m. 1 - m))
                  (np_mean_axis2 (map2 (map2 (map2 (\<lambda>x y. x - y))) o2 o1))))),
                [Infer (to_tensor (map (map black_pixel) img)),
                 Infer (to_tensor (map (map white_pixel) img))])"
proof -
  have "is_array h w (last_in_nc self) (map (map black_pixel) img)"
    using is_array_black [OF arr] nc by simp
  from process_ok [OF con this] nc obtain r1 where
    p1: "process self (map (map black_pixel) img)
          = (Inr (from_tensor r1), [Infer (to_tensor (map (map black_pixel) img))])"
    and a1: "is_array (nat (last_scale self) * h) (nat (last_scale self) * w) 3 (from_tensor r1)"
    and i1: "in01 (from_tensor r1)"
    by auto
  have "is_array h w (last_in_nc self) (map (map white_pixel) img)"
    using is_array_white [OF arr] nc by simp
  from process_ok [OF con this] nc obtain r2 where
    p2: "process self (map (map white_pixel) img)
          = (Inr (from_tensor r2), [Infer (to_tensor (map (map white_pixel) img))])"
    and a2: "is_array (nat (last_scale self) * h) (nat (last_scale self) * w) 3 (from_tensor r2)"
    and i2: "in01 (from_tensor r2)"
    by auto
  have "upscale_alpha self img
      = (Inr (np_clip01 (np_dstack (from_tensor r1) (map (map (\<lambda>m. 1 - m))
           (np_mean_axis2 (map2 (map2 (map2 (\<lambda>x y. x - y))) (from_tensor r2) (from_tensor r1)))))),
         [Infer (to_tensor (map (map black_pixel) img)),
          Infer (to_tensor (map (map white_pixel) img))])"
    using mode p1 p2 np_sub_arrays [OF a2 a1]
    by (simp add: upscale_alpha_def bg_composite_closed [OF arr] Let_def and_then_def from_sum_def)
  then show ?thesis
    using p1 p2 a1 a2 i1 i2 by blast
qed

lemma bg_output_pixel:
  assumes a1: "is_array H W 3 o1" and a2: "is_array H W 3 o2" and y: "y < H" and x: "x < W"
  shows "np_clip01 (np_dstack o1 (map (map (\<lambda>m. 1 - m))
           (np_mean_axis2 (map2 (map2 (map2 (\<lambda>x y. x - y))) o2 o1)))) ! y ! x
         = [min 1 (max (o1 ! y ! x ! 0) 0), min 1 (max (o1 ! y ! x ! 1) 0),
            min 1 (max (o1 ! y ! x ! 2) 0),
            min 1 (max (1 - ((o2 ! y ! x ! 0 - o1 ! y ! x ! 0) + (o2 ! y ! x ! 1 - o1 ! y ! x ! 1)
                             + (o2 ! y ! x ! 2 - o1 ! y ! x ! 2)) / 3) 0)]"
proof -
  have l1: "length o1 = H" "length (o1 ! y) = W" "length (o1 ! y ! x) = 3"
    using a1 y x by (simp_all add: is_array_nth)
  have l2: "length o2 = H" "length (o2 ! y) = W" "length (o2 ! y ! x) = 3"
    using a2 y x by (simp_all add: is_array_nth)
  obtain a b c where p: "o1 ! y ! x = [a, b, c]"
    using l1(3) by (rule pixel3)
  obtain a' b' c' where q: "o2 ! y ! x = [a', b', c']"
    using l2(3) by (rule pixel3)
  show ?thesis
    using l1 l2 y x
    by (simp add: np_clip01_def np_dstack_def np_mean_axis2_def p q add.assoc)
qed

lemma is_array_bg_output:
  assumes a1: "is_array H W 3 o1" and a2: "is_array H W 3 o2"
  shows "is_array H W 4 (np_clip01 (np_dstack o1 (map (map (\<lambda>m. 1 - m))
           (np_mean_axis2 (map2 (map2 (map2 (\<lambda>x y. x - y))) o2 o1)))))"
  using assms unfolding is_array_nth
  by (simp add: np_clip01_def np_dstack_def np_mean_axis2_def)

lemma array_eqI:
  assumes "is_array H W c a" and "is_array H W c' b"
    and "\<And>y x. y < H \<Longrightarrow> x < W \<Longrightarrow> a ! y ! x = b ! y ! x"
  shows "a = b"
proof (rule nth_equalityI)
  show "length a = length b"
    using assms(1,2) by (simp add: is_array_nth)
  fix y
  assume "y < length a"
  then have y: "y < H"
    using assms(1) by (simp add: is_array_nth)
  show "a ! y = b ! y"
  proof (rule nth_equalityI)
    show "length (a ! y) = length (b ! y)"
      using assms(1,2) y by (simp add: is_array_nth)
    fix x
    assume "x < length (a ! y)"
    then have "x < W"
      using assms(1) y by (simp add: is_array_nth)
    then show "a ! y ! x = b ! y ! x"
      using assms(3) y by simp
  qed
qed

lemma in01_np_clip01: "in01 (np_clip01 a)"
  by (simp add: in01_def np_clip01_def list_all_iff)

lemma upscale_quantize_array:
  assumes "is_array H W 4 s"
  shows "upscale_quantize self s
           = Inr (map (map (\<lambda>p. p[3 := quantized_alpha self (p ! 3)])) s)"
proof -
  have "map (map (\<lambda>p. p[3 := p ! 3])) s = s"
    by (simp add: map_idI)
  then show ?thesis
    using is_array_shape(3) [OF assms]
    by (simp add: upscale_quantize_def quantized_alpha_def cong: if_cong)
qed

lemma is_array_quantized:
  assumes "is_array H W 4 s"
  shows "is_array H W 4 (map (map (\<lambda>p. p[3 := f (p ! 3)])) s)"
  using assms by (rule is_array_map_pixels) simp

lemma is_array_rescale_255:
  assumes "is_array H W c s"
  shows "is_array H W c (rescale_255 s)"
  unfolding rescale_255_def using assms by (rule is_array_normalize)

lemma upscale_alpha_path:
  assumes dt: "iinfo_max dt = Inr m"
    and arr: "is_array h w 4 px"
    and nc: "last_in_nc self = 3" "last_out_nc self = 3"
    and strat: "upscale_alpha self (map (map (map (\<lambda>v. v * 1 / m))) px) = (Inr s, ev)"
    and s: "is_array H W 4 s"
  shows "upscale self (Arr3 dt px)
           = (Inr (rescale_255 (map (map (\<lambda>p. p[3 := quantized_alpha self (p ! 3)])) s)), ev)"
proof -
  have "shape2 (map (map (map (\<lambda>v. v * 1 / m))) px) = 4"
    using is_array_shape(3) [OF is_array_normalize [OF arr]] .
  then show ?thesis
    using dt nc strat upscale_quantize_array [OF s]
    by (simp add: upscale_def dtype_of_def Let_def and_then_def from_sum_def succeed_def)
qed

lemma final_alpha_pixel:
  assumes s: "is_array H W 4 s" and y: "y < H" and x: "x < W"
  shows "rescale_255 (map (map (\<lambda>p. p[3 := f (p ! 3)])) s) ! y ! x ! 3
           = np_round (f (s ! y ! x ! 3) * 255)"
proof -
  have "length s = H" "length (s ! y) = W" "length (s ! y ! x) = 4"
    using s y x by (simp_all add: is_array_nth)
  then show ?thesis
    using y x by (simp add: rescale_255_def)
qed

lemma np_round_values: "np_round 0 = 0" "np_round 255 = 255" "np_round (255 / 2) = 128"
  by (simp_all add: np_round_def Let_def)

lemma merge_3_1_arrays:
  assumes a1: "is_array H W 3 o1" and a2: "is_array H W 3 o2" and k: "k < 3"
  shows "merge_3_1 o1 o2 k = Inr (map2 (map2 (\<lambda>p q. [p ! 0, p ! 1, p ! 2, q ! k])) o1 o2)"
    and "is_array H W 4 (map2 (map2 (\<lambda>p q. [p ! 0, p ! 1, p ! 2, q ! k])) o1 o2)"
proof -
  show "merge_3_1 o1 o2 k = Inr (map2 (map2 (\<lambda>p q. [p ! 0, p ! 1, p ! 2, q ! k])) o1 o2)"
    using is_array_shape [OF a1] is_array_shape [OF a2] k by (simp add: merge_3_1_def)
  show "is_array H W 4 (map2 (map2 (\<lambda>p q. [p ! 0, p ! 1, p ! 2, q ! k])) o1 o2)"
    using a1 a2 by (rule is_array_map2) simp
qed

lemma two_runs:
  assumes con: "model_contract self" and nc: "last_in_nc self = 3" "last_out_nc self = 3"
    and a1: "is_array h w 3 img1" and a2: "is_array h w 3 img2" and k: "k < 3"
  shows "\<exists>s ev. and_then (process self img1) (\<lambda>output1.
            and_then (process self img2) (\<lambda>output2.
              from_sum (merge_3_1 output1 output2 k))) = (Inr s, ev) \<and>
          is_array (nat (last_scale self) * h) (nat (last_scale self) * w) 4 s"
proof -
  have "is_array h w (last_in_nc self) img1" "is_array h w (last_in_nc self) img2"
    using a1 a2 nc by simp_all
  from process_ok [OF con this(1)] process_ok [OF con this(2)] nc obtain r1 r2 where
    p1: "process self img1 = (Inr (from_tensor r1), [Infer (to_tensor img1)])"
    and o1: "is_array (nat (last_scale self) * h) (nat (last_scale self) * w) 3 (from_tensor r1)"
    and p2: "process self img2 = (Inr (from_tensor r2), [Infer (to_tensor img2)])"
    and o2: "is_array (nat (last_scale self) * h) (nat (last_scale self) * w) 3 (from_tensor r2)"
    by auto
  show ?thesis
    using p1 p2 merge_3_1_arrays [OF o1 o2 k]
    by (simp add: and_then_def from_sum_def)
qed

lemma upscale_alpha_ok:
  assumes con: "model_contract self" and nc: "last_in_nc self = 3" "last_out_nc self = 3"
    and arr: "is_array h w 4 img"
  shows "\<exists>s ev. upscale_alpha self img = (Inr s, ev) \<and>
           is_array (nat (last_scale self) * h) (nat (last_scale self) * w) 4 s"
proof -
  consider (bg) "alpha_mode self = Some BG_DIFFERENCE"
    | (sep) "alpha_mode self = Some ALPHA_SEPARATELY"
    | (swap) "alpha_mode self = Some SWAPPING"
    | (none) "alpha_mode self = None \<or> alpha_mode self = Some NO_ALPHA"
    by (cases "alpha_mode self") (auto intro: AlphaOptions.exhaust)
  then show ?thesis
  proof cases
    case bg
    from upscale_alpha_bg [OF con nc arr bg] show ?thesis
      using is_array_bg_output by blast
  next
    case sep
    have "is_array h w 3 (map (map (\<lambda>p. [p ! 3, p ! 3, p ! 3])) img)"
      using arr by (rule is_array_map_pixels) simp
    from two_runs [OF con nc is_array_take3 [OF arr] this, of 0] show ?thesis
      using sep by (simp add: upscale_alpha_def Let_def)
  next
    case swap
    have "is_array h w 3 (map (map (\<lambda>p. [p ! 0, p ! 1, p ! 2])) img)"
      using arr by (rule is_array_map_pixels) simp
    moreover have "is_array h w 3 (map (map (\<lambda>p. [p ! 1, p ! 2, p ! 3])) img)"
      using arr by (rule is_array_map_pixels) simp
    ultimately show ?thesis
      using two_runs [OF con nc, of h w _ _ 2] swap by (simp add: upscale_alpha_def Let_def)
  next
    case none
    from upscale_alpha_none [OF con nc arr none] obtain o1 ev where
      "is_array (nat (last_scale self) * h) (nat (last_scale self) * w) 3 o1"
      "upscale_alpha self img = (Inr (map (map (\<lambda>p. p @ [1])) o1), ev)"
      by blast
    moreover from this(1) have
      "is_array (nat (last_scale self) * h) (nat (last_scale self) * w) 4 (map (map (\<lambda>p. p @ [1])) o1)"
      by (rule is_array_map_pixels) simp
    ultimately show ?thesis by blast
  qed
qed

section \<open>Quantisation of the alpha channel\<close>

lemma alpha_path_result:
  assumes con: "model_contract self" and nc: "last_in_nc self = 3" "last_out_nc self = 3"
    and arr: "is_array h w 4 px" and dt: "iinfo_max dt = Inr m"
  shows "\<exists>s ev.
           upscale_alpha self (map (map (map (\<lambda>v. v * 1 / m))) px) = (Inr s, ev) \<and>
           is_array (nat (last_scale self) * h) (nat (last_scale self) * w) 4 s \<and>
           upscale self (Arr3 dt px)
             = (Inr (rescale_255 (map (map (\<lambda>p. p[3 := quantized_alpha self (p ! 3)])) s)), ev) \<and>
           is_array (nat (last_scale self) * h) (nat (last_scale self) * w) 4
             (rescale_255 (map (map (\<lambda>p. p[3 := quantized_alpha self (p ! 3)])) s))"
proof -
  from upscale_alpha_ok [OF con nc is_array_normalize [OF arr]] obtain s ev where
    strat: "upscale_alpha self (map (map (map (\<lambda>v. v * 1 / m))) px) = (Inr s, ev)"
    and s: "is_array (nat (last_scale self) * h) (nat (last_scale self) * w) 4 s"
    by blast
  show ?thesis
    using strat s upscale_alpha_path [OF dt arr nc strat s]
      is_array_rescale_255 [OF is_array_quantized [OF s]]
    by blast
qed

text \<open>
  C3. With ternary alpha enabled and binary alpha disabled, on a 4-channel input of an
  integer type and a 3-in/3-out network that meets its contract, \<open>upscale\<close>
  returns, and every alpha sample \<open>a\<close> that the alpha strategy produced is classified
  as the specification says: the quantised value is \<open>spec_ternary\<close> of \<open>a\<close> (0 below
  \<open>alpha_threshold - alpha_boundary_offset\<close>, 1 above
  \<open>alpha_threshold + alpha_boundary_offset\<close>, 0.5 otherwise), which the final
  rescaling turns into 0, 255 and 128. For a boundary offset that is not negative, a
  sample equal to the threshold and a sample equal to the upper bound are both
  classified as 0.5.
\<close>

theorem ternary_alpha_classification:
  assumes con: "model_contract self" and nc: "last_in_nc self = 3" "last_out_nc self = 3"
    and arr: "is_array h w 4 px" and dt: "iinfo_max dt = Inr m"
    and flags: "\<not> binary_alpha self" "ternary_alpha self"
    and off: "0 \<le> alpha_boundary_offset self"
  shows "\<exists>s out ev.
           upscale_alpha self (map (map (map (\<lambda>v. v * 1 / m))) px) = (Inr s, ev) \<and>
           upscale self (Arr3 dt px) = (Inr out, ev) \<and>
           is_array (nat (last_scale self) * h) (nat (last_scale self) * w) 4 s \<and>
           is_array (nat (last_scale self) * h) (nat (last_scale self) * w) 4 out \<and>
           (\<forall>y < nat (last_scale self) * h. \<forall>x < nat (last_scale self) * w.
              quantized_alpha self (s ! y ! x ! 3)
                = spec_ternary (alpha_threshold self) (alpha_boundary_offset self) (s ! y ! x ! 3) \<and>
              out ! y ! x ! 3
                = (if s ! y ! x ! 3 < alpha_threshold self - alpha_boundary_offset self then 0
                   else if s ! y ! x ! 3 > alpha_threshold self + alpha_boundary_offset self
                     then 255
                   else 128)) \<and>
           spec_ternary (alpha_threshold self) (alpha_boundary_offset self) (alpha_threshold self)
             = 1 / 2 \<and>
           spec_ternary (alpha_threshold self) (alpha_boundary_offset self)
             (alpha_threshold self + alpha_boundary_offset self) = 1 / 2"
proof -
  from alpha_path_result [OF con nc arr dt] obtain s ev where
    strat: "upscale_alpha self (map (map (map (\<lambda>v. v * 1 / m))) px) = (Inr s, ev)"
    and s: "is_array (nat (last_scale self) * h) (nat (last_scale self) * w) 4 s"
    and up: "upscale self (Arr3 dt px)
      = (Inr (rescale_255 (map (map (\<lambda>p. p[3 := quantized_alpha self (p ! 3)])) s)), ev)"
    and out: "is_array (nat (last_scale self) * h) (nat (last_scale self) * w) 4
      (rescale_255 (map (map (\<lambda>p. p[3 := quantized_alpha self (p ! 3)])) s))"
    by blast
  have q: "quantized_alpha self a
      = spec_ternary (alpha_threshold self) (alpha_boundary_offset self) a" for a
    using flags by (simp add: quantized_alpha_def ternary_where_def spec_ternary_def)
  have px: "rescale_255 (map (map (\<lambda>p. p[3 := quantized_alpha self (p ! 3)])) s) ! y ! x ! 3
      = (if s ! y ! x ! 3 < alpha_threshold self - alpha_boundary_offset self then 0
         else if s ! y ! x ! 3 > alpha_threshold self + alpha_boundary_offset self then 255
         else 128)"
    if "y < nat (last_scale self) * h" "x < nat (last_scale self) * w" for y x
    unfolding final_alpha_pixel [OF s that] q
    by (simp add: spec_ternary_def np_round_values)
  have mid: "spec_ternary (alpha_threshold self) (alpha_boundary_offset self) (alpha_threshold self)
      = 1 / 2"
    "spec_ternary (alpha_threshold self) (alpha_boundary_offset self)
      (alpha_threshold self + alpha_boundary_offset self) = 1 / 2"
    using off by (simp_all add: spec_ternary_def)
  show ?thesis
    using strat up s out q px mid by blast
qed

theorem ternary_alpha_classification_witness:
  "model_contract (example_obj\<lparr>ternary_alpha := True, alpha_mode := Some ALPHA_SEPARATELY\<rparr>) \<and>
   last_in_nc (example_obj\<lparr>ternary_alpha := True, alpha_mode := Some ALPHA_SEPARATELY\<rparr>) = 3 \<and>
   last_out_nc (example_obj\<lparr>ternary_alpha := True, alpha_mode := Some ALPHA_SEPARATELY\<rparr>) = 3 \<and>
   is_array 1 1 4 [[[255, 0, 51, 128 :: real]]] \<and>
   iinfo_max UInt8 = Inr 255 \<and>
   \<not> binary_alpha (example_obj\<lparr>ternary_alpha := True, alpha_mode := Some ALPHA_SEPARATELY\<rparr>) \<and>
   ternary_alpha (example_obj\<lparr>ternary_alpha := True, alpha_mode := Some ALPHA_SEPARATELY\<rparr>) \<and>
   0 \<le> alpha_boundary_offset
         (example_obj\<lparr>ternary_alpha := True, alpha_mode := Some ALPHA_SEPARATELY\<rparr>) \<and>
   (\<exists>s out ev.
      upscale_alpha (example_obj\<lparr>ternary_alpha := True, alpha_mode := Some ALPHA_SEPARATELY\<rparr>)
        (map (map (map (\<lambda>v. v * 1 / 255))) [[[255, 0, 51, 128]]]) = (Inr s, ev) \<and>
      upscale (example_obj\<lparr>ternary_alpha := True, alpha_mode := Some ALPHA_SEPARATELY\<rparr>)
        (Arr3 UInt8 [[[255, 0, 51, 128]]]) = (Inr out, ev) \<and>
      out ! 0 ! 0 ! 3
        = (if s ! 0 ! 0 ! 3 < 3 / 10 then 0 else if s ! 0 ! 0 ! 3 > 7 / 10 then 255 else 128))"
proof -
  let ?O = "example_obj\<lparr>ternary_alpha := True, alpha_mode := Some ALPHA_SEPARATELY\<rparr>"
  have con: "model_contract ?O"
    by (simp add: model_contract_def example_obj_def identity_net_def)
  have nc: "last_in_nc ?O = 3" "last_out_nc ?O = 3"
    by (simp_all add: example_obj_def)
  have arr: "is_array 1 1 4 [[[255, 0, 51, 128 :: real]]]"
    by (simp add: is_array_def)
  have dt: "iinfo_max UInt8 = Inr 255"
    by (simp add: iinfo_max_def)
  have flags: "\<not> binary_alpha ?O" "ternary_alpha ?O"
    by (simp_all add: example_obj_def)
  have off: "0 \<le> alpha_boundary_offset ?O"
    by (simp add: example_obj_def)
  have thr: "alpha_threshold ?O - alpha_boundary_offset ?O = 3 / 10"
    "alpha_threshold ?O + alpha_boundary_offset ?O = 7 / 10" "nat (last_scale ?O) = 1"
    by (simp_all add: example_obj_def)
  from ternary_alpha_classification [OF con nc arr dt flags off] obtain s out ev where
    "upscale_alpha ?O (map (map (map (\<lambda>v. v * 1 / 255))) [[[255, 0, 51, 128]]]) = (Inr s, ev)"
    "upscale ?O (Arr3 UInt8 [[[255, 0, 51, 128]]]) = (Inr out, ev)"
    "\<forall>y < nat (last_scale ?O) * 1. \<forall>x < nat (last_scale ?O) * 1.
       quantized_alpha ?O (s ! y ! x ! 3)
         = spec_ternary (alpha_threshold ?O) (alpha_boundary_offset ?O) (s ! y ! x ! 3) \<and>
       out ! y ! x ! 3
         = (if s ! y ! x ! 3 < alpha_threshold ?O - alpha_boundary_offset ?O then 0
            else if s ! y ! x ! 3 > alpha_threshold ?O + alpha_boundary_offset ?O then 255
            else 128)"
    by blast
  then have "\<exists>s out ev.
      upscale_alpha ?O (map (map (map (\<lambda>v. v * 1 / 255))) [[[255, 0, 51, 128]]]) = (Inr s, ev) \<and>
      upscale ?O (Arr3 UInt8 [[[255, 0, 51, 128]]]) = (Inr out, ev) \<and>
      out ! 0 ! 0 ! 3
        = (if s ! 0 ! 0 ! 3 < 3 / 10 then 0 else if s ! 0 ! 0 ! 3 > 7 / 10 then 255 else 128)"
    unfolding thr by auto
  then show ?thesis
    using con nc arr dt flags off by blast
qed

text \<open>
  C4, as the code has it. With binary alpha enabled, on a 4-channel input of an integer
  type and a 3-in/3-out network that meets its contract, \<open>upscale\<close> returns, and every
  alpha sample that the alpha strategy produced becomes 1 (255 after the rescaling)
  when it is greater than \<open>alpha_threshold\<close> and 0 when it is less than or equal to
  it. A sample equal to the threshold becomes 0.
\<close>

theorem binary_alpha_threshold:
  assumes con: "model_contract self" and nc: "last_in_nc self = 3" "last_out_nc self = 3"
    and arr: "is_array h w 4 px" and dt: "iinfo_max dt = Inr m"
    and flag: "binary_alpha self"
  shows "\<exists>s out ev.
           upscale_alpha self (map (map (map (\<lambda>v. v * 1 / m))) px) = (Inr s, ev) \<and>
           upscale self (Arr3 dt px) = (Inr out, ev) \<and>
           is_array (nat (last_scale self) * h) (nat (last_scale self) * w) 4 s \<and>
           is_array (nat (last_scale self) * h) (nat (last_scale self) * w) 4 out \<and>
           (\<forall>y < nat (last_scale self) * h. \<forall>x < nat (last_scale self) * w.
              quantized_alpha self (s ! y ! x ! 3)
                = (if s ! y ! x ! 3 > alpha_threshold self then 1 else 0) \<and>
              out ! y ! x ! 3 = (if s ! y ! x ! 3 > alpha_threshold self then 255 else 0)) \<and>
           quantized_alpha self (alpha_threshold self) = 0"
proof -
  from alpha_path_result [OF con nc arr dt] obtain s ev where
    strat: "upscale_alpha self (map (map (map (\<lambda>v. v * 1 / m))) px) = (Inr s, ev)"
    and s: "is_array (nat (last_scale self) * h) (nat (last_scale self) * w) 4 s"
    and up: "upscale self (Arr3 dt px)
      = (Inr (rescale_255 (map (map (\<lambda>p. p[3 := quantized_alpha self (p ! 3)])) s)), ev)"
    and out: "is_array (nat (last_scale self) * h) (nat (last_scale self) * w) 4
      (rescale_255 (map (map (\<lambda>p. p[3 := quantized_alpha self (p ! 3)])) s))"
    by blast
  have q: "quantized_alpha self a = (if a > alpha_threshold self then 1 else 0)" for a
    using flag by (simp add: quantized_alpha_def threshold_binary_def)
  have px: "rescale_255 (map (map (\<lambda>p. p[3 := quantized_alpha self (p ! 3)])) s) ! y ! x ! 3
      = (if s ! y ! x ! 3 > alpha_threshold self then 255 else 0)"
    if "y < nat (last_scale self) * h" "x < nat (last_scale self) * w" for y x
  proof -
    have "rescale_255 (map (map (\<lambda>p. p[3 := quantized_alpha self (p ! 3)])) s) ! y ! x ! 3
        = np_round (quantized_alpha self (s ! y ! x ! 3) * 255)"
      by (rule final_alpha_pixel [OF s that])
    then show ?thesis
      by (simp add: q np_round_values)
  qed
  have "quantized_alpha self (alpha_threshold self) = 0"
    by (simp add: q)
  then show ?thesis
    using strat up s out q px by blast
qed

theorem binary_alpha_threshold_witness:
  "model_contract (example_obj\<lparr>binary_alpha := True\<rparr>) \<and>
   last_in_nc (example_obj\<lparr>binary_alpha := True\<rparr>) = 3 \<and>
   last_out_nc (example_obj\<lparr>binary_alpha := True\<rparr>) = 3 \<and>
   is_array 1 1 4 [[[255, 0, 51, 128 :: real]]] \<and>
   iinfo_max UInt8 = Inr 255 \<and>
   binary_alpha (example_obj\<lparr>binary_alpha := True\<rparr>) \<and>
   (\<exists>s out ev.
      upscale_alpha (example_obj\<lparr>binary_alpha := True\<rparr>)
        (map (map (map (\<lambda>v. v * 1 / 255))) [[[255, 0, 51, 128]]]) = (Inr s, ev) \<and>
      upscale (example_obj\<lparr>binary_alpha := True\<rparr>) (Arr3 UInt8 [[[255, 0, 51, 128]]])
        = (Inr out, ev) \<and>
      out ! 0 ! 0 ! 3 = (if s ! 0 ! 0 ! 3 > 1 / 2 then 255 else 0))"
proof -
  let ?O = "example_obj\<lparr>binary_alpha := True\<rparr>"
  have con: "model_contract ?O"
    by (simp add: model_contract_def example_obj_def identity_net_def)
  have nc: "last_in_nc ?O = 3" "last_out_nc ?O = 3"
    by (simp_all add: example_obj_def)
  have arr: "is_array 1 1 4 [[[255, 0, 51, 128 :: real]]]"
    by (simp add: is_array_def)
  have dt: "iinfo_max UInt8 = Inr 255"
    by (simp add: iinfo_max_def)
  have flag: "binary_alpha ?O"
    by simp
  have thr: "alpha_threshold ?O = 1 / 2" "nat (last_scale ?O) = 1"
    by (simp_all add: example_obj_def)
  from binary_alpha_threshold [OF con nc arr dt flag] obtain s out ev where
    "upscale_alpha ?O (map (map (map (\<lambda>v. v * 1 / 255))) [[[255, 0, 51, 128]]]) = (Inr s, ev)"
    "upscale ?O (Arr3 UInt8 [[[255, 0, 51, 128]]]) = (Inr out, ev)"
    "\<forall>y < nat (last_scale ?O) * 1. \<forall>x < nat (last_scale ?O) * 1.
       quantized_alpha ?O (s ! y ! x ! 3) = (if s ! y ! x ! 3 > alpha_threshold ?O then 1 else 0) \<and>
       out ! y ! x ! 3 = (if s ! y ! x ! 3 > alpha_threshold ?O then 255 else 0)"
    by blast
  then have "\<exists>s out ev.
      upscale_alpha ?O (map (map (map (\<lambda>v. v * 1 / 255))) [[[255, 0, 51, 128]]]) = (Inr s, ev) \<and>
      upscale ?O (Arr3 UInt8 [[[255, 0, 51, 128]]]) = (Inr out, ev) \<and>
      out ! 0 ! 0 ! 3 = (if s ! 0 ! 0 ! 3 > 1 / 2 then 255 else 0)"
    unfolding thr by auto
  then show ?thesis
    using con nc arr dt flag by blast
qed

text \<open>
  The claim C4 as the specification states it (a sample at the threshold becomes 1)
  fails. In mode \<open>separate\<close> with the identity network and threshold 1, a fully
  opaque input pixel gives the alpha sample 1, equal to the threshold: the
  specification's rule \<open>spec_binary\<close> makes it 1, \<open>upscale\<close> returns alpha 0.
\<close>

theorem binary_alpha_at_threshold_counterexample:
  "upscale_alpha
      (example_obj\<lparr>binary_alpha := True, alpha_threshold := 1,
         alpha_mode := Some ALPHA_SEPARATELY\<rparr>)
      (map (map (map (\<lambda>v. v * 1 / 255))) [[[255, 0, 51, 255]]])
     = (Inr [[[1, 0, 1 / 5, 1]]],
        [Infer [[[1 / 5]], [[0]], [[1]]], Infer [[[1]], [[1]], [[1]]]]) \<and>
   spec_binary 1 1 = 1 \<and>
   upscale
      (example_obj\<lparr>binary_alpha := True, alpha_threshold := 1,
         alpha_mode := Some ALPHA_SEPARATELY\<rparr>)
      (Arr3 UInt8 [[[255, 0, 51, 255]]])
     = (Inr [[[255, 0, 51, 0]]],
        [Infer [[[1 / 5]], [[0]], [[1]]], Infer [[[1]], [[1]], [[1]]]])"
  by code_simp

lemma process_offset:
  "process (self\<lparr>alpha_boundary_offset := x\<rparr>) img = process self img"
  by (simp add: process_def)

lemma upscale_alpha_offset:
  "upscale_alpha (self\<lparr>alpha_boundary_offset := x\<rparr>) img = upscale_alpha self img"
  by (simp add: upscale_alpha_def process_offset)

text \<open>
  C9. When both \<open>binary_alpha\<close> and \<open>ternary_alpha\<close> are enabled, on a 4-channel
  input of an integer type and a 3-in/3-out network that meets its contract,
  \<open>upscale\<close> returns, and what it returns is the strategy's result with the binary
  threshold applied to the alpha channel and rescaled: every output alpha sample is 255
  where the strategy's sample is greater than \<open>alpha_threshold\<close> and 0 elsewhere, so
  the value 128 of the ternary classification never occurs. The ternary flag is
  ignored without an error: the call returns exactly what it returns with
  \<open>ternary_alpha\<close> switched off, and the boundary offset has no influence.
\<close>

theorem binary_alpha_takes_precedence:
  assumes con: "model_contract self" and nc: "last_in_nc self = 3" "last_out_nc self = 3"
    and arr: "is_array h w 4 px" and dt: "iinfo_max dt = Inr m"
    and both: "binary_alpha self" "ternary_alpha self"
  shows "\<exists>s out ev.
           upscale_alpha self (map (map (map (\<lambda>v. v * 1 / m))) px) = (Inr s, ev) \<and>
           upscale self (Arr3 dt px) = (Inr out, ev) \<and>
           is_array (nat (last_scale self) * h) (nat (last_scale self) * w) 4 s \<and>
           is_array (nat (last_scale self) * h) (nat (last_scale self) * w) 4 out \<and>
           out = rescale_255
                   (map (map (\<lambda>p. p[3 := threshold_binary (alpha_threshold self) 1 (p ! 3)])) s) \<and>
           (\<forall>y < nat (last_scale self) * h. \<forall>x < nat (last_scale self) * w.
              out ! y ! x ! 3 = (if s ! y ! x ! 3 > alpha_threshold self then 255 else 0) \<and>
              out ! y ! x ! 3 \<noteq> 128) \<and>
           upscale (self\<lparr>ternary_alpha := False\<rparr>) (Arr3 dt px) = (Inr out, ev) \<and>
           upscale (self\<lparr>alpha_boundary_offset := offset\<rparr>) (Arr3 dt px) = (Inr out, ev)"
proof -
  from alpha_path_result [OF con nc arr dt] obtain s ev where
    strat: "upscale_alpha self (map (map (map (\<lambda>v. v * 1 / m))) px) = (Inr s, ev)"
    and s: "is_array (nat (last_scale self) * h) (nat (last_scale self) * w) 4 s"
    and up: "upscale self (Arr3 dt px)
      = (Inr (rescale_255 (map (map (\<lambda>p. p[3 := quantized_alpha self (p ! 3)])) s)), ev)"
    and out: "is_array (nat (last_scale self) * h) (nat (last_scale self) * w) 4
      (rescale_255 (map (map (\<lambda>p. p[3 := quantized_alpha self (p ! 3)])) s))"
    by blast
  have q: "quantized_alpha self = threshold_binary (alpha_threshold self) 1"
    using both by (auto simp: quantized_alpha_def)
  define out_img where "out_img = rescale_255
      (map (map (\<lambda>p. p[3 := threshold_binary (alpha_threshold self) 1 (p ! 3)])) s)"
  have up': "upscale self (Arr3 dt px) = (Inr out_img, ev)"
    using up by (simp add: q out_img_def)
  have out': "is_array (nat (last_scale self) * h) (nat (last_scale self) * w) 4 out_img"
    using out by (simp add: q out_img_def)
  have px: "out_img ! y ! x ! 3 = (if s ! y ! x ! 3 > alpha_threshold self then 255 else 0) \<and>
      out_img ! y ! x ! 3 \<noteq> 128"
    if "y < nat (last_scale self) * h" "x < nat (last_scale self) * w" for y x
  proof -
    have "out_img ! y ! x ! 3
        = np_round (threshold_binary (alpha_threshold self) 1 (s ! y ! x ! 3) * 255)"
      unfolding out_img_def by (rule final_alpha_pixel [OF s that])
    then show ?thesis
      by (simp add: threshold_binary_def np_round_values)
  qed
  have self_eq: "self\<lparr>binary_alpha := True, ternary_alpha := True\<rparr> = self"
    using both by simp
  have off_eq: "self\<lparr>binary_alpha := True, ternary_alpha := False\<rparr> = self\<lparr>ternary_alpha := False\<rparr>"
    using both by simp
  have tern: "upscale (self\<lparr>ternary_alpha := False\<rparr>) (Arr3 dt px) = (Inr out_img, ev)"
    using upscale_both_flags [of self "Arr3 dt px"] up' by (simp only: self_eq off_eq)
  have offs: "upscale (self\<lparr>alpha_boundary_offset := offset\<rparr>) (Arr3 dt px) = (Inr out_img, ev)"
  proof -
    let ?self = "self\<lparr>alpha_boundary_offset := offset\<rparr>"
    have con': "model_contract ?self"
      using con by (simp add: model_contract_def)
    have strat': "upscale_alpha ?self (map (map (map (\<lambda>v. v * 1 / m))) px) = (Inr s, ev)"
      using strat by (simp only: upscale_alpha_offset)
    have "quantized_alpha ?self = threshold_binary (alpha_threshold self) 1"
      using both by (auto simp: quantized_alpha_def)
    then show ?thesis
      using upscale_alpha_path [OF dt arr _ _ strat' s] nc by (simp add: out_img_def)
  qed
  show ?thesis
    using strat up' s out' px tern offs unfolding out_img_def by blast
qed

theorem binary_alpha_takes_precedence_witness:
  "model_contract (example_obj\<lparr>binary_alpha := True, ternary_alpha := True,
        alpha_mode := Some ALPHA_SEPARATELY\<rparr>) \<and>
   last_in_nc (example_obj\<lparr>binary_alpha := True, ternary_alpha := True,
        alpha_mode := Some ALPHA_SEPARATELY\<rparr>) = 3 \<and>
   last_out_nc (example_obj\<lparr>binary_alpha := True, ternary_alpha := True,
        alpha_mode := Some ALPHA_SEPARATELY\<rparr>) = 3 \<and>
   is_array 1 1 4 [[[255, 0, 51, 128 :: real]]] \<and> iinfo_max UInt8 = Inr 255 \<and>
   binary_alpha (example_obj\<lparr>binary_alpha := True, ternary_alpha := True,
        alpha_mode := Some ALPHA_SEPARATELY\<rparr>) \<and>
   ternary_alpha (example_obj\<lparr>binary_alpha := True, ternary_alpha := True,
        alpha_mode := Some ALPHA_SEPARATELY\<rparr>) \<and>
   (\<exists>s out ev.
      upscale_alpha (example_obj\<lparr>binary_alpha := True, ternary_alpha := True,
        alpha_mode := Some ALPHA_SEPARATELY\<rparr>)
        (map (map (map (\<lambda>v. v * 1 / 255))) [[[255, 0, 51, 128]]]) = (Inr s, ev) \<and>
      upscale (example_obj\<lparr>binary_alpha := True, ternary_alpha := True,
        alpha_mode := Some ALPHA_SEPARATELY\<rparr>) (Arr3 UInt8 [[[255, 0, 51, 128]]]) = (Inr out, ev) \<and>
      out ! 0 ! 0 ! 3 = (if s ! 0 ! 0 ! 3 > 1 / 2 then 255 else 0) \<and>
      out ! 0 ! 0 ! 3 \<noteq> 128 \<and>
      upscale ((example_obj\<lparr>binary_alpha := True, ternary_alpha := True,
        alpha_mode := Some ALPHA_SEPARATELY\<rparr>)\<lparr>ternary_alpha := False\<rparr>) (Arr3 UInt8 [[[255, 0, 51, 128]]])
        = (Inr out, ev)) \<and>
   upscale (example_obj\<lparr>binary_alpha := True, ternary_alpha := True,
        alpha_mode := Some ALPHA_SEPARATELY\<rparr>) (Arr3 UInt8 [[[255, 0, 51, 128]]])
     = (Inr [[[255, 0, 51, 255]]],
        [Infer [[[1 / 5]], [[0]], [[1]]],
         Infer [[[128 / 255]], [[128 / 255]], [[128 / 255]]]]) \<and>
   upscale (example_obj\<lparr>binary_alpha := False, ternary_alpha := True,
        alpha_mode := Some ALPHA_SEPARATELY\<rparr>) (Arr3 UInt8 [[[255, 0, 51, 128]]])
     = (Inr [[[255, 0, 51, 128]]],
        [Infer [[[1 / 5]], [[0]], [[1]]],
         Infer [[[128 / 255]], [[128 / 255]], [[128 / 255]]]])"
proof -
  let ?O = "example_obj\<lparr>binary_alpha := True, ternary_alpha := True,
        alpha_mode := Some ALPHA_SEPARATELY\<rparr>"
  have con: "model_contract ?O"
    by (simp add: model_contract_def example_obj_def identity_net_def)
  have nc: "last_in_nc ?O = 3" "last_out_nc ?O = 3"
    by (simp_all add: example_obj_def)
  have arr: "is_array 1 1 4 [[[255, 0, 51, 128 :: real]]]"
    by (simp add: is_array_def)
  have dt: "iinfo_max UInt8 = Inr 255"
    by (simp add: iinfo_max_def)
  have both: "binary_alpha ?O" "ternary_alpha ?O"
    by simp_all
  have thr: "alpha_threshold ?O = 1 / 2" "nat (last_scale ?O) = 1"
    by (simp_all add: example_obj_def)
  from binary_alpha_takes_precedence [OF con nc arr dt both, where offset = 0]
  obtain s out ev where
    "upscale_alpha ?O (map (map (map (\<lambda>v. v * 1 / 255))) [[[255, 0, 51, 128]]]) = (Inr s, ev)"
    "upscale ?O (Arr3 UInt8 [[[255, 0, 51, 128]]]) = (Inr out, ev)"
    "\<forall>y < nat (last_scale ?O) * 1. \<forall>x < nat (last_scale ?O) * 1.
       out ! y ! x ! 3 = (if s ! y ! x ! 3 > alpha_threshold ?O then 255 else 0) \<and>
       out ! y ! x ! 3 \<noteq> 128"
    "upscale (?O\<lparr>ternary_alpha := False\<rparr>) (Arr3 UInt8 [[[255, 0, 51, 128]]]) = (Inr out, ev)"
    by blast
  then have ex: "\<exists>s out ev.
      upscale_alpha ?O (map (map (map (\<lambda>v. v * 1 / 255))) [[[255, 0, 51, 128]]]) = (Inr s, ev) \<and>
      upscale ?O (Arr3 UInt8 [[[255, 0, 51, 128]]]) = (Inr out, ev) \<and>
      out ! 0 ! 0 ! 3 = (if s ! 0 ! 0 ! 3 > 1 / 2 then 255 else 0) \<and>
      out ! 0 ! 0 ! 3 \<noteq> 128 \<and>
      upscale (?O\<lparr>ternary_alpha := False\<rparr>) (Arr3 UInt8 [[[255, 0, 51, 128]]]) = (Inr out, ev)"
    unfolding thr by auto
  have v1: "upscale ?O (Arr3 UInt8 [[[255, 0, 51, 128]]])
     = (Inr [[[255, 0, 51, 255]]],
        [Infer [[[1 / 5]], [[0]], [[1]]],
         Infer [[[128 / 255]], [[128 / 255]], [[128 / 255]]]])"
    by code_simp
  have v2: "upscale (example_obj\<lparr>binary_alpha := False, ternary_alpha := True,
        alpha_mode := Some ALPHA_SEPARATELY\<rparr>) (Arr3 UInt8 [[[255, 0, 51, 128]]])
     = (Inr [[[255, 0, 51, 128]]],
        [Infer [[[1 / 5]], [[0]], [[1]]],
         Infer [[[128 / 255]], [[128 / 255]], [[128 / 255]]]])"
    by code_simp
  show ?thesis
    using con nc arr dt both ex v1 v2 by blast
qed

section \<open>Alpha mode \<open>none\<close>\<close>

text \<open>
  C7, as the code has it. For alpha mode \<open>none\<close> (no mode configured, or \<open>NO_ALPHA\<close>)
  on a 4-channel input of an integer type and a 3-in/3-out network that meets its
  contract, \<open>upscale\<close> returns, and every alpha sample that the strategy attaches is
  1.0. The alpha channel of the output is 255 at every pixel provided the quantisation
  leaves 1.0 as it is: with binary alpha the threshold is below 1, and with ternary
  alpha (binary alpha off) \<open>alpha_threshold + alpha_boundary_offset\<close> is below 1 and
  \<open>alpha_threshold - alpha_boundary_offset\<close> is at most 1. With no quantisation
  enabled there is no condition.
\<close>

theorem no_alpha_full_opacity:
  assumes con: "model_contract self" and nc: "last_in_nc self = 3" "last_out_nc self = 3"
    and arr: "is_array h w 4 px" and dt: "iinfo_max dt = Inr m"
    and mode: "alpha_mode self = None \<or> alpha_mode self = Some NO_ALPHA"
    and bin: "binary_alpha self \<longrightarrow> alpha_threshold self < 1"
    and ter: "\<not> binary_alpha self \<and> ternary_alpha self \<longrightarrow>
      alpha_threshold self - alpha_boundary_offset self \<le> 1 \<and>
      alpha_threshold self + alpha_boundary_offset self < 1"
  shows "\<exists>s out ev.
           upscale_alpha self (map (map (map (\<lambda>v. v * 1 / m))) px) = (Inr s, ev) \<and>
           upscale self (Arr3 dt px) = (Inr out, ev) \<and>
           is_array (nat (last_scale self) * h) (nat (last_scale self) * w) 4 s \<and>
           is_array (nat (last_scale self) * h) (nat (last_scale self) * w) 4 out \<and>
           (\<forall>y < nat (last_scale self) * h. \<forall>x < nat (last_scale self) * w.
              s ! y ! x ! 3 = 1 \<and> out ! y ! x ! 3 = 255)"
proof -
  let ?img = "map (map (map (\<lambda>v. v * 1 / m))) px"
  let ?H = "nat (last_scale self) * h" and ?W = "nat (last_scale self) * w"
  from upscale_alpha_none [OF con nc is_array_normalize [OF arr] mode] obtain o1 ev where
    o1: "is_array ?H ?W 3 o1"
    and strat: "upscale_alpha self ?img = (Inr (map (map (\<lambda>p. p @ [1])) o1), ev)"
    by blast
  define s where "s = map (map (\<lambda>p. p @ [1 :: real])) o1"
  have s: "is_array ?H ?W 4 s"
    unfolding s_def using o1 by (rule is_array_map_pixels) simp
  have one: "s ! y ! x ! 3 = 1" if "y < ?H" "x < ?W" for y x
  proof -
    have "length o1 = ?H" "length (o1 ! y) = ?W" "length (o1 ! y ! x) = 3"
      using o1 that by (simp_all add: is_array_nth)
    then show ?thesis
      using that by (simp add: s_def nth_append)
  qed
  have q: "quantized_alpha self 1 = 1"
    using bin ter
    by (auto simp: quantized_alpha_def threshold_binary_def ternary_where_def)
  have up: "upscale self (Arr3 dt px)
      = (Inr (rescale_255 (map (map (\<lambda>p. p[3 := quantized_alpha self (p ! 3)])) s)), ev)"
    using upscale_alpha_path [OF dt arr nc _ s] strat by (simp add: s_def)
  have out: "is_array ?H ?W 4 (rescale_255 (map (map (\<lambda>p. p[3 := quantized_alpha self (p ! 3)])) s))"
    by (rule is_array_rescale_255 [OF is_array_quantized [OF s]])
  have px: "rescale_255 (map (map (\<lambda>p. p[3 := quantized_alpha self (p ! 3)])) s) ! y ! x ! 3 = 255"
    if "y < ?H" "x < ?W" for y x
  proof -
    have "rescale_255 (map (map (\<lambda>p. p[3 := quantized_alpha self (p ! 3)])) s) ! y ! x ! 3
        = np_round (quantized_alpha self (s ! y ! x ! 3) * 255)"
      by (rule final_alpha_pixel [OF s that])
    then show ?thesis
      using one [OF that] q by (simp add: np_round_values)
  qed
  show ?thesis
    using strat up s out one px unfolding s_def by blast
qed

theorem no_alpha_full_opacity_witness:
  "model_contract (example_obj\<lparr>binary_alpha := True\<rparr>) \<and>
   last_in_nc (example_obj\<lparr>binary_alpha := True\<rparr>) = 3 \<and> last_out_nc (example_obj\<lparr>binary_alpha := True\<rparr>) = 3 \<and>
   is_array 1 1 4 [[[255, 0, 51, 128 :: real]]] \<and> iinfo_max UInt8 = Inr 255 \<and>
   alpha_mode (example_obj\<lparr>binary_alpha := True\<rparr>) = None \<and>
   binary_alpha (example_obj\<lparr>binary_alpha := True\<rparr>) \<and> alpha_threshold (example_obj\<lparr>binary_alpha := True\<rparr>) < 1 \<and>
   (\<exists>out ev. upscale (example_obj\<lparr>binary_alpha := True\<rparr>) (Arr3 UInt8 [[[255, 0, 51, 128]]]) = (Inr out, ev) \<and>
      out ! 0 ! 0 ! 3 = 255) \<and>
   model_contract (example_obj\<lparr>ternary_alpha := True\<rparr>) \<and>
   last_in_nc (example_obj\<lparr>ternary_alpha := True\<rparr>) = 3 \<and> last_out_nc (example_obj\<lparr>ternary_alpha := True\<rparr>) = 3 \<and>
   alpha_mode (example_obj\<lparr>ternary_alpha := True\<rparr>) = None \<and>
   \<not> binary_alpha (example_obj\<lparr>ternary_alpha := True\<rparr>) \<and> ternary_alpha (example_obj\<lparr>ternary_alpha := True\<rparr>) \<and>
   alpha_threshold (example_obj\<lparr>ternary_alpha := True\<rparr>) - alpha_boundary_offset (example_obj\<lparr>ternary_alpha := True\<rparr>) \<le> 1 \<and>
   alpha_threshold (example_obj\<lparr>ternary_alpha := True\<rparr>) + alpha_boundary_offset (example_obj\<lparr>ternary_alpha := True\<rparr>) < 1 \<and>
   (\<exists>out ev. upscale (example_obj\<lparr>ternary_alpha := True\<rparr>) (Arr3 UInt8 [[[255, 0, 51, 128]]]) = (Inr out, ev) \<and>
      out ! 0 ! 0 ! 3 = 255)"
proof -
  let ?B = "example_obj\<lparr>binary_alpha := True\<rparr>"
  let ?T = "example_obj\<lparr>ternary_alpha := True\<rparr>"
  have arr: "is_array 1 1 4 [[[255, 0, 51, 128 :: real]]]"
    by (simp add: is_array_def)
  have dt: "iinfo_max UInt8 = Inr 255"
    by (simp add: iinfo_max_def)
  have conB: "model_contract ?B"
    by (simp add: model_contract_def example_obj_def identity_net_def)
  have ncB: "last_in_nc ?B = 3" "last_out_nc ?B = 3"
    by (simp_all add: example_obj_def)
  have modeB: "alpha_mode ?B = None"
    by (simp add: example_obj_def)
  have flagB: "binary_alpha ?B"
    by simp
  have thrB: "alpha_threshold ?B < 1"
    by (simp add: example_obj_def)
  have scB: "nat (last_scale ?B) = 1"
    by (simp add: example_obj_def)
  have binB: "binary_alpha ?B \<longrightarrow> alpha_threshold ?B < 1"
    using thrB by simp
  have terB: "\<not> binary_alpha ?B \<and> ternary_alpha ?B \<longrightarrow>
      alpha_threshold ?B - alpha_boundary_offset ?B \<le> 1 \<and>
      alpha_threshold ?B + alpha_boundary_offset ?B < 1"
    using flagB by simp
  from no_alpha_full_opacity [OF conB ncB arr dt disjI1 [OF modeB] binB terB] obtain outB evB where
    "upscale ?B (Arr3 UInt8 [[[255, 0, 51, 128]]]) = (Inr outB, evB)"
    "\<forall>y < nat (last_scale ?B) * 1. \<forall>x < nat (last_scale ?B) * 1. outB ! y ! x ! 3 = 255"
    by blast
  then have exB: "\<exists>out ev. upscale ?B (Arr3 UInt8 [[[255, 0, 51, 128]]]) = (Inr out, ev) \<and>
      out ! 0 ! 0 ! 3 = 255"
    unfolding scB by auto
  have conT: "model_contract ?T"
    by (simp add: model_contract_def example_obj_def identity_net_def)
  have ncT: "last_in_nc ?T = 3" "last_out_nc ?T = 3"
    by (simp_all add: example_obj_def)
  have modeT: "alpha_mode ?T = None"
    by (simp add: example_obj_def)
  have flagT: "\<not> binary_alpha ?T" "ternary_alpha ?T"
    by (simp_all add: example_obj_def)
  have thrT: "alpha_threshold ?T - alpha_boundary_offset ?T \<le> 1"
    "alpha_threshold ?T + alpha_boundary_offset ?T < 1"
    by (simp_all add: example_obj_def)
  have scT: "nat (last_scale ?T) = 1"
    by (simp add: example_obj_def)
  have binT: "binary_alpha ?T \<longrightarrow> alpha_threshold ?T < 1"
    using flagT by simp
  have terT: "\<not> binary_alpha ?T \<and> ternary_alpha ?T \<longrightarrow>
      alpha_threshold ?T - alpha_boundary_offset ?T \<le> 1 \<and>
      alpha_threshold ?T + alpha_boundary_offset ?T < 1"
    using thrT by simp
  from no_alpha_full_opacity [OF conT ncT arr dt disjI1 [OF modeT] binT terT] obtain outT evT where
    "upscale ?T (Arr3 UInt8 [[[255, 0, 51, 128]]]) = (Inr outT, evT)"
    "\<forall>y < nat (last_scale ?T) * 1. \<forall>x < nat (last_scale ?T) * 1. outT ! y ! x ! 3 = 255"
    by blast
  then have exT: "\<exists>out ev. upscale ?T (Arr3 UInt8 [[[255, 0, 51, 128]]]) = (Inr out, ev) \<and>
      out ! 0 ! 0 ! 3 = 255"
    unfolding scT by auto
  show ?thesis
    using arr dt conB ncB modeB flagB thrB exB conT ncT modeT flagT thrT exT by blast
qed

text \<open>
  The claim C7 as the specification states it (for alpha mode \<open>none\<close> the output alpha
  is at maximum opacity at every pixel) fails when the quantisation changes the
  sample 1.0. With ternary alpha, threshold 0.5 and boundary offset 0.5, the upper
  bound is 1.0, the sample 1.0 is classified as 0.5 and the output alpha is 128.
\<close>

theorem no_alpha_quantised_counterexample:
  "alpha_mode (example_obj\<lparr>ternary_alpha := True, alpha_boundary_offset := 1 / 2\<rparr>) = None \<and>
   last_in_nc (example_obj\<lparr>ternary_alpha := True, alpha_boundary_offset := 1 / 2\<rparr>) = 3 \<and>
   last_out_nc (example_obj\<lparr>ternary_alpha := True, alpha_boundary_offset := 1 / 2\<rparr>) = 3 \<and>
   alpha_threshold (example_obj\<lparr>ternary_alpha := True, alpha_boundary_offset := 1 / 2\<rparr>) = 1 / 2 \<and>
   upscale (example_obj\<lparr>ternary_alpha := True, alpha_boundary_offset := 1 / 2\<rparr>)
      (Arr3 UInt8 [[[255, 0, 51, 255]]])
     = (Inr [[[255, 0, 51, 128]]], [Infer [[[1 / 5]], [[0]], [[1]]]])"
  by code_simp

section \<open>Alpha mode \<open>bg_difference\<close>\<close>

lemma in01_bg_output_rgb:
  assumes a1: "is_array H W 3 o1" and a2: "is_array H W 3 o2"
  shows "map (map (take 3)) (np_clip01 (np_dstack o1 (map (map (\<lambda>m. 1 - m))
           (np_mean_axis2 (map2 (map2 (map2 (\<lambda>x y. x - y))) o2 o1))))) = np_clip01 o1"
proof (rule array_eqI)
  show "is_array H W 3 (map (map (take 3)) (np_clip01 (np_dstack o1 (map (map (\<lambda>m. 1 - m))
           (np_mean_axis2 (map2 (map2 (map2 (\<lambda>x y. x - y))) o2 o1))))))"
    by (rule is_array_take3 [OF is_array_bg_output [OF a1 a2]])
  show "is_array H W 3 (np_clip01 o1)"
    unfolding np_clip01_def using a1 by (rule is_array_normalize)
  fix y x
  assume yx: "y < H" "x < W"
  have l1: "length o1 = H" "length (o1 ! y) = W" "length (o1 ! y ! x) = 3"
    using a1 yx by (simp_all add: is_array_nth)
  have l4: "length (np_clip01 (np_dstack o1 (map (map (\<lambda>m. 1 - m))
           (np_mean_axis2 (map2 (map2 (map2 (\<lambda>x y. x - y))) o2 o1))))) = H"
    "length (np_clip01 (np_dstack o1 (map (map (\<lambda>m. 1 - m))
           (np_mean_axis2 (map2 (map2 (map2 (\<lambda>x y. x - y))) o2 o1)))) ! y) = W"
    using is_array_bg_output [OF a1 a2] yx by (simp_all add: is_array_nth)
  obtain a b c where p: "o1 ! y ! x = [a, b, c]"
    using l1(3) by (rule pixel3)
  have "map (map (take 3)) (np_clip01 (np_dstack o1 (map (map (\<lambda>m. 1 - m))
           (np_mean_axis2 (map2 (map2 (map2 (\<lambda>x y. x - y))) o2 o1))))) ! y ! x
      = take 3 (np_clip01 (np_dstack o1 (map (map (\<lambda>m. 1 - m))
           (np_mean_axis2 (map2 (map2 (map2 (\<lambda>x y. x - y))) o2 o1)))) ! y ! x)"
    using l4 yx by simp
  also have "\<dots> = [min 1 (max a 0), min 1 (max b 0), min 1 (max c 0)]"
    unfolding bg_output_pixel [OF a1 a2 yx] by (simp add: p)
  also have "\<dots> = np_clip01 o1 ! y ! x"
    using l1 yx by (simp add: np_clip01_def p)
  finally show "map (map (take 3)) (np_clip01 (np_dstack o1 (map (map (\<lambda>m. 1 - m))
           (np_mean_axis2 (map2 (map2 (map2 (\<lambda>x y. x - y))) o2 o1))))) ! y ! x
      = np_clip01 o1 ! y ! x" .
qed

lemma take3_rescale_quantized:
  "map (map (take 3)) (rescale_255 (map (map (\<lambda>p. p[3 := f (p ! 3)])) s))
     = rescale_255 (map (map (take 3)) s)"
  by (simp add: rescale_255_def take_map)

text \<open>
  C5. For alpha mode \<open>bg_difference\<close> on the normalised RGBA input and a 3-in/3-out
  network that meets its contract, the network is run exactly twice, first on the
  black composite \<open>rgb * alpha\<close> and then on the white composite
  \<open>(rgb - 1) * alpha + 1\<close> (each laid out as a tensor by \<open>process\<close>); the alpha
  that the strategy returns at a pixel is 1 minus the mean over the three channels of
  white result minus black result, clipped; and every sample of the RGBA result lies
  in \<open>[0, 1]\<close>. With no quantisation enabled \<open>upscale\<close> returns this result
  rescaled to \<open>0 .. 255\<close>.
\<close>

theorem bg_difference_alpha:
  assumes con: "model_contract self" and nc: "last_in_nc self = 3" "last_out_nc self = 3"
    and arr: "is_array h w 4 px" and dt: "iinfo_max dt = Inr m"
    and mode: "alpha_mode self = Some BG_DIFFERENCE"
  shows "\<exists>o1 o2 s.
           process self (map (map black_pixel) (map (map (map (\<lambda>v. v * 1 / m))) px))
             = (Inr o1, [Infer (to_tensor
                  (map (map black_pixel) (map (map (map (\<lambda>v. v * 1 / m))) px)))]) \<and>
           process self (map (map white_pixel) (map (map (map (\<lambda>v. v * 1 / m))) px))
             = (Inr o2, [Infer (to_tensor
                  (map (map white_pixel) (map (map (map (\<lambda>v. v * 1 / m))) px)))]) \<and>
           upscale_alpha self (map (map (map (\<lambda>v. v * 1 / m))) px)
             = (Inr s,
                [Infer (to_tensor (map (map black_pixel) (map (map (map (\<lambda>v. v * 1 / m))) px))),
                 Infer (to_tensor (map (map white_pixel) (map (map (map (\<lambda>v. v * 1 / m))) px)))]) \<and>
           is_array (nat (last_scale self) * h) (nat (last_scale self) * w) 4 s \<and> in01 s \<and>
           (\<forall>y < nat (last_scale self) * h. \<forall>x < nat (last_scale self) * w.
              s ! y ! x ! 3
                = min 1 (max (1 - ((o2 ! y ! x ! 0 - o1 ! y ! x ! 0) + (o2 ! y ! x ! 1 - o1 ! y ! x ! 1)
                                   + (o2 ! y ! x ! 2 - o1 ! y ! x ! 2)) / 3) 0)) \<and>
           (\<not> binary_alpha self \<and> \<not> ternary_alpha self \<longrightarrow>
              upscale self (Arr3 dt px)
                = (Inr (rescale_255 s),
                   [Infer (to_tensor
                      (map (map black_pixel) (map (map (map (\<lambda>v. v * 1 / m))) px))),
                    Infer (to_tensor
                      (map (map white_pixel) (map (map (map (\<lambda>v. v * 1 / m))) px)))]))"
proof -
  let ?img = "map (map (map (\<lambda>v. v * 1 / m))) px"
  let ?H = "nat (last_scale self) * h" and ?W = "nat (last_scale self) * w"
  let ?ev = "[Infer (to_tensor (map (map black_pixel) ?img)),
              Infer (to_tensor (map (map white_pixel) ?img))]"
  from upscale_alpha_bg [OF con nc is_array_normalize [OF arr] mode] obtain o1 o2 where
    p1: "process self (map (map black_pixel) ?img)
          = (Inr o1, [Infer (to_tensor (map (map black_pixel) ?img))])"
    and p2: "process self (map (map white_pixel) ?img)
          = (Inr o2, [Infer (to_tensor (map (map white_pixel) ?img))])"
    and a1: "is_array ?H ?W 3 o1" and a2: "is_array ?H ?W 3 o2"
    and strat: "upscale_alpha self ?img
          = (Inr (np_clip01 (np_dstack o1 (map (map (\<lambda>m. 1 - m))
               (np_mean_axis2 (map2 (map2 (map2 (\<lambda>x y. x - y))) o2 o1))))), ?ev)"
    by blast
  define s where "s = np_clip01 (np_dstack o1 (map (map (\<lambda>m. 1 - m))
      (np_mean_axis2 (map2 (map2 (map2 (\<lambda>x y. x - y))) o2 o1))))"
  have s: "is_array ?H ?W 4 s"
    unfolding s_def by (rule is_array_bg_output [OF a1 a2])
  have range: "in01 s"
    unfolding s_def by (rule in01_np_clip01)
  have alpha: "s ! y ! x ! 3
      = min 1 (max (1 - ((o2 ! y ! x ! 0 - o1 ! y ! x ! 0) + (o2 ! y ! x ! 1 - o1 ! y ! x ! 1)
                         + (o2 ! y ! x ! 2 - o1 ! y ! x ! 2)) / 3) 0)"
    if "y < ?H" "x < ?W" for y x
    unfolding s_def bg_output_pixel [OF a1 a2 that] by simp
  have up: "upscale self (Arr3 dt px) = (Inr (rescale_255 s), ?ev)"
    if "\<not> binary_alpha self \<and> \<not> ternary_alpha self"
  proof -
    have "quantized_alpha self a = a" for a
      using that by (simp add: quantized_alpha_def)
    then have "map (map (\<lambda>p. p[3 := quantized_alpha self (p ! 3)])) s = s"
      by (simp add: map_idI)
    then show ?thesis
      using upscale_alpha_path [OF dt arr nc _ s] strat by (simp add: s_def)
  qed
  show ?thesis
    using p1 p2 strat s range alpha up unfolding s_def by blast
qed

text \<open>
  C10. For alpha mode \<open>bg_difference\<close> the colour channels of the result are those of
  the run on the black composite, clipped to \<open>[0, 1]\<close>: the first three channels of
  the strategy's result are \<open>np_clip01\<close> of what \<open>process\<close> returned for the black
  composite, and the first three channels of what \<open>upscale\<close> returns are that image
  rescaled to \<open>0 .. 255\<close>, whatever the quantisation flags. The run on the white
  composite does not occur in either.
\<close>

theorem bg_difference_colour_channels:
  assumes con: "model_contract self" and nc: "last_in_nc self = 3" "last_out_nc self = 3"
    and arr: "is_array h w 4 px" and dt: "iinfo_max dt = Inr m"
    and mode: "alpha_mode self = Some BG_DIFFERENCE"
  shows "\<exists>o1 s out ev.
           process self (map (map black_pixel) (map (map (map (\<lambda>v. v * 1 / m))) px))
             = (Inr o1, [Infer (to_tensor
                  (map (map black_pixel) (map (map (map (\<lambda>v. v * 1 / m))) px)))]) \<and>
           upscale_alpha self (map (map (map (\<lambda>v. v * 1 / m))) px) = (Inr s, ev) \<and>
           map (map (take 3)) s = np_clip01 o1 \<and>
           upscale self (Arr3 dt px) = (Inr out, ev) \<and>
           map (map (take 3)) out = rescale_255 (np_clip01 o1)"
proof -
  let ?img = "map (map (map (\<lambda>v. v * 1 / m))) px"
  let ?H = "nat (last_scale self) * h" and ?W = "nat (last_scale self) * w"
  from upscale_alpha_bg [OF con nc is_array_normalize [OF arr] mode] obtain o1 o2 ev where
    p1: "process self (map (map black_pixel) ?img)
          = (Inr o1, [Infer (to_tensor (map (map black_pixel) ?img))])"
    and a1: "is_array ?H ?W 3 o1" and a2: "is_array ?H ?W 3 o2"
    and strat: "upscale_alpha self ?img
          = (Inr (np_clip01 (np_dstack o1 (map (map (\<lambda>m. 1 - m))
               (np_mean_axis2 (map2 (map2 (map2 (\<lambda>x y. x - y))) o2 o1))))), ev)"
    by blast
  define s where "s = np_clip01 (np_dstack o1 (map (map (\<lambda>m. 1 - m))
      (np_mean_axis2 (map2 (map2 (map2 (\<lambda>x y. x - y))) o2 o1))))"
  have s: "is_array ?H ?W 4 s"
    unfolding s_def by (rule is_array_bg_output [OF a1 a2])
  have rgb: "map (map (take 3)) s = np_clip01 o1"
    unfolding s_def by (rule in01_bg_output_rgb [OF a1 a2])
  have up: "upscale self (Arr3 dt px)
      = (Inr (rescale_255 (map (map (\<lambda>p. p[3 := quantized_alpha self (p ! 3)])) s)), ev)"
    using upscale_alpha_path [OF dt arr nc _ s] strat by (simp add: s_def)
  have "map (map (take 3)) (rescale_255 (map (map (\<lambda>p. p[3 := quantized_alpha self (p ! 3)])) s))
      = rescale_255 (np_clip01 o1)"
    by (simp only: take3_rescale_quantized rgb)
  then show ?thesis
    using p1 strat rgb up unfolding s_def by blast
qed

theorem bg_difference_alpha_witness:
  "model_contract (example_obj\<lparr>alpha_mode := Some BG_DIFFERENCE\<rparr>) \<and>
   last_in_nc (example_obj\<lparr>alpha_mode := Some BG_DIFFERENCE\<rparr>) = 3 \<and>
   last_out_nc (example_obj\<lparr>alpha_mode := Some BG_DIFFERENCE\<rparr>) = 3 \<and>
   is_array 1 1 4 [[[255, 0, 51, 102 :: real]]] \<and> iinfo_max UInt8 = Inr 255 \<and>
   alpha_mode (example_obj\<lparr>alpha_mode := Some BG_DIFFERENCE\<rparr>) = Some BG_DIFFERENCE \<and>
   \<not> binary_alpha (example_obj\<lparr>alpha_mode := Some BG_DIFFERENCE\<rparr>) \<and> \<not> ternary_alpha (example_obj\<lparr>alpha_mode := Some BG_DIFFERENCE\<rparr>) \<and>
   (\<exists>o1 o2 s.
      upscale_alpha (example_obj\<lparr>alpha_mode := Some BG_DIFFERENCE\<rparr>) (map (map (map (\<lambda>v. v * 1 / 255))) [[[255, 0, 51, 102]]])
        = (Inr s, [Infer (to_tensor (map (map black_pixel) (map (map (map (\<lambda>v. v * 1 / 255))) [[[255, 0, 51, 102]]]))),
                   Infer (to_tensor (map (map white_pixel) (map (map (map (\<lambda>v. v * 1 / 255))) [[[255, 0, 51, 102]]])))]) \<and>
      in01 s \<and>
      s ! 0 ! 0 ! 3
        = min 1 (max (1 - ((o2 ! 0 ! 0 ! 0 - o1 ! 0 ! 0 ! 0) + (o2 ! 0 ! 0 ! 1 - o1 ! 0 ! 0 ! 1)
                           + (o2 ! 0 ! 0 ! 2 - o1 ! 0 ! 0 ! 2)) / 3) 0) \<and>
      upscale (example_obj\<lparr>alpha_mode := Some BG_DIFFERENCE\<rparr>) (Arr3 UInt8 [[[255, 0, 51, 102]]])
        = (Inr (rescale_255 s), [Infer (to_tensor (map (map black_pixel) (map (map (map (\<lambda>v. v * 1 / 255))) [[[255, 0, 51, 102]]]))),
                                 Infer (to_tensor (map (map white_pixel) (map (map (map (\<lambda>v. v * 1 / 255))) [[[255, 0, 51, 102]]])))]))"
proof -
  let ?O = "example_obj\<lparr>alpha_mode := Some BG_DIFFERENCE\<rparr>"
  let ?img = "map (map (map (\<lambda>v. v * 1 / 255))) [[[255, 0, 51, 102 :: real]]]"
  have con: "model_contract ?O"
    by (simp add: model_contract_def example_obj_def identity_net_def)
  have nc: "last_in_nc ?O = 3" "last_out_nc ?O = 3"
    by (simp_all add: example_obj_def)
  have arr: "is_array 1 1 4 [[[255, 0, 51, 102 :: real]]]"
    by (simp add: is_array_def)
  have dt: "iinfo_max UInt8 = Inr 255"
    by (simp add: iinfo_max_def)
  have mode: "alpha_mode ?O = Some BG_DIFFERENCE"
    by simp
  have flags: "\<not> binary_alpha ?O \<and> \<not> ternary_alpha ?O"
    by (simp add: example_obj_def)
  have sc: "nat (last_scale ?O) = 1"
    by (simp add: example_obj_def)
  from bg_difference_alpha [OF con nc arr dt mode] obtain o1 o2 s where
    "upscale_alpha ?O ?img
       = (Inr s, [Infer (to_tensor (map (map black_pixel) ?img)),
                  Infer (to_tensor (map (map white_pixel) ?img))])"
    "in01 s"
    "\<forall>y < nat (last_scale ?O) * 1. \<forall>x < nat (last_scale ?O) * 1.
       s ! y ! x ! 3
         = min 1 (max (1 - ((o2 ! y ! x ! 0 - o1 ! y ! x ! 0) + (o2 ! y ! x ! 1 - o1 ! y ! x ! 1)
                            + (o2 ! y ! x ! 2 - o1 ! y ! x ! 2)) / 3) 0)"
    "\<not> binary_alpha ?O \<and> \<not> ternary_alpha ?O \<longrightarrow>
       upscale ?O (Arr3 UInt8 [[[255, 0, 51, 102]]])
         = (Inr (rescale_255 s), [Infer (to_tensor (map (map black_pixel) ?img)),
                                  Infer (to_tensor (map (map white_pixel) ?img))])"
    by blast
  then have "(\<exists>o1 o2 s.
      upscale_alpha ?O ?img
        = (Inr s, [Infer (to_tensor (map (map black_pixel) ?img)),
                   Infer (to_tensor (map (map white_pixel) ?img))]) \<and>
      in01 s \<and>
      s ! 0 ! 0 ! 3
        = min 1 (max (1 - ((o2 ! 0 ! 0 ! 0 - o1 ! 0 ! 0 ! 0) + (o2 ! 0 ! 0 ! 1 - o1 ! 0 ! 0 ! 1)
                           + (o2 ! 0 ! 0 ! 2 - o1 ! 0 ! 0 ! 2)) / 3) 0) \<and>
      upscale ?O (Arr3 UInt8 [[[255, 0, 51, 102]]])
        = (Inr (rescale_255 s), [Infer (to_tensor (map (map black_pixel) ?img)),
                                 Infer (to_tensor (map (map white_pixel) ?img))]))"
    unfolding sc using flags by auto
  then show ?thesis
    using con nc arr dt mode flags by blast
qed

theorem bg_difference_colour_channels_witness:
  "model_contract (example_obj\<lparr>alpha_mode := Some BG_DIFFERENCE\<rparr>) \<and>
   last_in_nc (example_obj\<lparr>alpha_mode := Some BG_DIFFERENCE\<rparr>) = 3 \<and>
   last_out_nc (example_obj\<lparr>alpha_mode := Some BG_DIFFERENCE\<rparr>) = 3 \<and>
   is_array 1 1 4 [[[255, 0, 51, 102 :: real]]] \<and> iinfo_max UInt8 = Inr 255 \<and>
   alpha_mode (example_obj\<lparr>alpha_mode := Some BG_DIFFERENCE\<rparr>) = Some BG_DIFFERENCE \<and>
   (\<exists>o1 out ev.
      process (example_obj\<lparr>alpha_mode := Some BG_DIFFERENCE\<rparr>) (map (map black_pixel) (map (map (map (\<lambda>v. v * 1 / 255))) [[[255, 0, 51, 102]]]))
        = (Inr o1, [Infer (to_tensor (map (map black_pixel) (map (map (map (\<lambda>v. v * 1 / 255))) [[[255, 0, 51, 102]]])))]) \<and>
      upscale (example_obj\<lparr>alpha_mode := Some BG_DIFFERENCE\<rparr>) (Arr3 UInt8 [[[255, 0, 51, 102]]]) = (Inr out, ev) \<and>
      map (map (take 3)) out = rescale_255 (np_clip01 o1))"
proof -
  let ?O = "example_obj\<lparr>alpha_mode := Some BG_DIFFERENCE\<rparr>"
  let ?img = "map (map (map (\<lambda>v. v * 1 / 255))) [[[255, 0, 51, 102 :: real]]]"
  have con: "model_contract ?O"
    by (simp add: model_contract_def example_obj_def identity_net_def)
  have nc: "last_in_nc ?O = 3" "last_out_nc ?O = 3"
    by (simp_all add: example_obj_def)
  have arr: "is_array 1 1 4 [[[255, 0, 51, 102 :: real]]]"
    by (simp add: is_array_def)
  have dt: "iinfo_max UInt8 = Inr 255"
    by (simp add: iinfo_max_def)
  have mode: "alpha_mode ?O = Some BG_DIFFERENCE"
    by simp
  have flags: "\<not> binary_alpha ?O \<and> \<not> ternary_alpha ?O"
    by (simp add: example_obj_def)
  have sc: "nat (last_scale ?O) = 1"
    by (simp add: example_obj_def)
  from bg_difference_colour_channels [OF con nc arr dt mode] obtain o1 out ev where
    "process ?O (map (map black_pixel) ?img)
       = (Inr o1, [Infer (to_tensor (map (map black_pixel) ?img))])"
    "upscale ?O (Arr3 UInt8 [[[255, 0, 51, 102]]]) = (Inr out, ev)"
    "map (map (take 3)) out = rescale_255 (np_clip01 o1)"
    by blast
  then have "\<exists>o1 out ev.
      process ?O (map (map black_pixel) ?img)
        = (Inr o1, [Infer (to_tensor (map (map black_pixel) ?img))]) \<and>
      upscale ?O (Arr3 UInt8 [[[255, 0, 51, 102]]]) = (Inr out, ev) \<and>
      map (map (take 3)) out = rescale_255 (np_clip01 o1)"
    by blast
  then show ?thesis
    using con nc arr dt mode by blast
qed

section \<open>Truncation of extra channels\<close>

text \<open>
  C8. If the input image has more channels than the network expects and the alpha path
  (4 channels, 3 in, 3 out) does not apply, \<open>upscale\<close> on an array of an integer type
  and a network that meets its contract logs the warning
  \<open>Truncating image channels\<close>, runs the network once, on the tensor made from the
  first \<open>last_in_nc\<close> channels of every pixel of the normalised image, and returns the
  rescaled result: the call does not fail, and the channels beyond the first
  \<open>last_in_nc\<close> reach neither the network nor the result.
\<close>

theorem truncate_extra_channels:
  assumes con: "model_contract self"
    and arr: "is_array h w c px" and dt: "iinfo_max dt = Inr m"
    and more: "last_in_nc self < c"
    and path: "\<not> (c = 4 \<and> last_in_nc self = 3 \<and> last_out_nc self = 3)"
  shows "\<exists>r. model self (to_tensor (map (map (take (last_in_nc self)))
                  (map (map (map (\<lambda>v. v * 1 / m))) px))) = Inr r \<and>
           upscale self (Arr3 dt px)
             = (Inr (rescale_255 (from_tensor r)),
                [LogWarning ''Truncating image channels'',
                 Infer (to_tensor (map (map (take (last_in_nc self)))
                   (map (map (map (\<lambda>v. v * 1 / m))) px)))])"
proof -
  let ?img = "map (map (map (\<lambda>v. v * 1 / m))) px"
  let ?cut = "map (map (take (last_in_nc self))) ?img"
  have img: "is_array h w c ?img"
    by (rule is_array_normalize [OF arr])
  have c: "shape2 ?img = c"
    by (rule is_array_shape(3) [OF img])
  have hw: "0 < h" "0 < w"
    using arr by (simp_all add: is_array_def)
  have "is_array h w (last_in_nc self) ?cut"
    using img by (rule is_array_map_pixels) (use more in simp)
  then have "has_shape (last_in_nc self) h w (to_tensor ?cut)"
    by (rule has_shape_to_tensor)
  then obtain r where r: "model self (to_tensor ?cut) = Inr r"
    using con hw unfolding model_contract_def by blast
  have p: "process self ?cut = (Inr (from_tensor r), [Infer (to_tensor ?cut)])"
    unfolding process_def Let_def r by simp
  have "upscale_adapt self ?img
      = (Inr (from_tensor r), [LogWarning ''Truncating image channels'', Infer (to_tensor ?cut)])"
    using c more p by (simp add: upscale_adapt_def)
  moreover have "\<not> (shape2 ?img = 4 \<and> last_in_nc self = 3 \<and> last_out_nc self = 3)"
    using c path by simp
  ultimately have "upscale self (Arr3 dt px)
      = (Inr (rescale_255 (from_tensor r)),
         [LogWarning ''Truncating image channels'', Infer (to_tensor ?cut)])"
    using dt by (auto simp: upscale_def dtype_of_def Let_def and_then_def succeed_def)
  then show ?thesis
    using r by blast
qed

theorem truncate_extra_channels_witness:
  "model_contract example_obj \<and>
   is_array 1 1 5 [[[255, 0, 51, 102, 7 :: real]]] \<and> iinfo_max UInt8 = Inr 255 \<and>
   last_in_nc example_obj < 5 \<and>
   \<not> (5 = (4 :: nat) \<and> last_in_nc example_obj = 3 \<and> last_out_nc example_obj = 3) \<and>
   (\<exists>r. upscale example_obj (Arr3 UInt8 [[[255, 0, 51, 102, 7]]])
          = (Inr (rescale_255 (from_tensor r)),
             [LogWarning ''Truncating image channels'',
              Infer (to_tensor (map (map (take (last_in_nc example_obj)))
                (map (map (map (\<lambda>v. v * 1 / 255))) [[[255, 0, 51, 102, 7]]])))]))"
proof -
  have con: "model_contract example_obj"
    by (simp add: model_contract_def example_obj_def identity_net_def)
  have arr: "is_array 1 1 5 [[[255, 0, 51, 102, 7 :: real]]]"
    by (simp add: is_array_def)
  have dt: "iinfo_max UInt8 = Inr 255"
    by (simp add: iinfo_max_def)
  have more: "last_in_nc example_obj < 5"
    by (simp add: example_obj_def)
  have path: "\<not> (5 = (4 :: nat) \<and> last_in_nc example_obj = 3 \<and> last_out_nc example_obj = 3)"
    by simp
  from truncate_extra_channels [OF con arr dt more path] show ?thesis
    using con arr dt more path by blast
qed

end
